theory Spec2Isabelle
  imports Complex_Main "HOL-Library.Word"
begin

section \<open>Procedural water flow: the numerical core of water\_flow\_visualization.py\<close>

text \<open>
  The arrays of the program are numpy arrays of floats. They are modelled as nested
  lists of reals: arithmetic is exact, and NaN and infinities are outside the model.
  Rounding to float64 is written out where a property depends on it: in the product
  \<open>sigma * 3\<close> that fixes the kernel's half-width, and in \<open>bilinear_at_f64\<close>, the sampler
  with every operation rounded. An array of shape \<open>h \<times> w \<times> c\<close> is a list of \<open>h\<close> rows, each a
  list of \<open>w\<close> cells, each a list of \<open>c\<close> channel values. An array whose leading extent
  is 0 is the empty list.

  Every exception the source (or numpy or matplotlib on its behalf) raises is a value
  \<open>Inl e\<close>. Of the live view only the first \<open>imshow\<close> can raise; the later painting
  and the GIF export only consume frames and are left out. The integers numpy computes
  with are unbounded here.
\<close>

datatype error = ValueError | IndexError | ZeroDivisionError

type_synonym arr1 = "real list"
type_synonym arr2 = "real list list"
type_synonym arr3 = "real list list list"
type_synonym frame = "8 word list list list"

definition ebind :: "error + 'a \<Rightarrow> ('a \<Rightarrow> error + 'b) \<Rightarrow> error + 'b" where
  "ebind m f = (case m of Inl e \<Rightarrow> Inl e | Inr v \<Rightarrow> f v)"

subsection \<open>Rounding to float64\<close>

text \<open>
  Round to nearest, ties to even, with a significand of 53 bits: a value of magnitude in
  \<open>[2^e, 2^(e+1))\<close> is rounded to a multiple of \<open>2^(e-52)\<close>, and below \<open>2^(-1022)\<close> the
  spacing stays \<open>2^(-1074)\<close>. A result of magnitude \<open>2^1024\<close> or more is an infinity in
  float64 and has no counterpart here.
\<close>

definition round_half_even :: "real \<Rightarrow> int" where
  "round_half_even q =
     (let f = \<lfloor>q\<rfloor>; r = q - of_int f
      in if r < 1 / 2 then f else if 1 / 2 < r then f + 1 else if even f then f else f + 1)"

definition f64_exponent :: "real \<Rightarrow> int" where
  "f64_exponent x = max \<lfloor>log 2 \<bar>x\<bar>\<rfloor> (- 1022)"

definition f64_round :: "real \<Rightarrow> real" where
  "f64_round x =
     (if x = 0 then 0
      else let u = 2 powi (f64_exponent x - 52)
           in of_int (round_half_even (x / u)) * u)"

subsection \<open>Shapes, tabulation, broadcasting\<close>

definition nrows :: "'a list list \<Rightarrow> nat" where
  "nrows a = length a"

definition ncols :: "'a list list \<Rightarrow> nat" where
  "ncols a = (case a of [] \<Rightarrow> 0 | r # _ \<Rightarrow> length r)"

definition nchan :: "'a list list list \<Rightarrow> nat" where
  "nchan a = (case a of [] \<Rightarrow> 0 | r # _ \<Rightarrow> (case r of [] \<Rightarrow> 0 | p # _ \<Rightarrow> length p))"

definition is_arr2 :: "nat \<Rightarrow> nat \<Rightarrow> 'a list list \<Rightarrow> bool" where
  "is_arr2 h w a = (length a = h \<and> list_all (\<lambda>r. length r = w) a)"

definition is_arr3 :: "nat \<Rightarrow> nat \<Rightarrow> nat \<Rightarrow> 'a list list list \<Rightarrow> bool" where
  "is_arr3 h w c a =
     (length a = h \<and> list_all (\<lambda>r. length r = w \<and> list_all (\<lambda>p. length p = c) r) a)"

definition tab2 :: "nat \<Rightarrow> nat \<Rightarrow> (nat \<Rightarrow> nat \<Rightarrow> 'a) \<Rightarrow> 'a list list" where
  "tab2 h w f = map (\<lambda>i. map (\<lambda>j. f i j) [0..<w]) [0..<h]"

definition tab3 :: "nat \<Rightarrow> nat \<Rightarrow> nat \<Rightarrow> (nat \<Rightarrow> nat \<Rightarrow> nat \<Rightarrow> 'a) \<Rightarrow> 'a list list list" where
  "tab3 h w c f = map (\<lambda>i. map (\<lambda>j. map (\<lambda>k. f i j k) [0..<c]) [0..<w]) [0..<h]"

text \<open>
  numpy broadcasting of two extents: equal extents stay, an extent of 1 is stretched,
  anything else raises ValueError (operands could not be broadcast together).
\<close>

definition bshape :: "nat \<Rightarrow> nat \<Rightarrow> error + nat" where
  "bshape m n =
     (if m = n then Inr m else if m = 1 then Inr n else if n = 1 then Inr m
      else Inl ValueError)"

definition bidx :: "nat \<Rightarrow> nat \<Rightarrow> nat" where
  "bidx m i = (if m = 1 then 0 else i)"

definition broadcast2 ::
  "('a \<Rightarrow> 'b \<Rightarrow> 'c) \<Rightarrow> 'a list list \<Rightarrow> 'b list list \<Rightarrow> error + 'c list list" where
  "broadcast2 f a b =
     ebind (bshape (nrows a) (nrows b)) (\<lambda>h.
     ebind (bshape (ncols a) (ncols b)) (\<lambda>w.
       Inr (tab2 h w (\<lambda>i j. f (a ! bidx (nrows a) i ! bidx (ncols a) j)
                               (b ! bidx (nrows b) i ! bidx (ncols b) j)))))"

definition broadcast3 ::
  "('a \<Rightarrow> 'b \<Rightarrow> 'c) \<Rightarrow> 'a list list list \<Rightarrow> 'b list list list \<Rightarrow> error + 'c list list list" where
  "broadcast3 f a b =
     ebind (bshape (nrows a) (nrows b)) (\<lambda>h.
     ebind (bshape (ncols a) (ncols b)) (\<lambda>w.
     ebind (bshape (nchan a) (nchan b)) (\<lambda>c.
       Inr (tab3 h w c (\<lambda>i j k.
              f (a ! bidx (nrows a) i ! bidx (ncols a) j ! bidx (nchan a) k)
                (b ! bidx (nrows b) i ! bidx (ncols b) j ! bidx (nchan b) k))))))"

fun sequence_err :: "(error + 'a) list \<Rightarrow> error + 'a list" where
  "sequence_err [] = Inr []"
| "sequence_err (r # rs) =
     (case r of
        Inl e \<Rightarrow> Inl e
      | Inr v \<Rightarrow> (case sequence_err rs of Inl e \<Rightarrow> Inl e | Inr vs \<Rightarrow> Inr (v # vs)))"

text \<open>\<open>np.clip(v, lo, hi)\<close> is \<open>minimum(maximum(v, lo), hi)\<close>, also when \<open>lo > hi\<close>.\<close>

definition np_clip :: "'a::linorder \<Rightarrow> 'a \<Rightarrow> 'a \<Rightarrow> 'a" where
  "np_clip v lo hi = min (max v lo) hi"

text \<open>
  \<open>np.linspace(start, stop, num, endpoint)\<close>: a negative \<open>num\<close> raises; the step is
  \<open>(stop - start) / div\<close> with \<open>div = num - 1\<close> (endpoint) or \<open>num\<close>; with \<open>div = 0\<close> the
  only sample, if any, is \<open>start\<close>.
\<close>

definition linspace :: "real \<Rightarrow> real \<Rightarrow> int \<Rightarrow> bool \<Rightarrow> error + arr1" where
  "linspace start stop num endpoint =
     (if num < 0 then Inl ValueError
      else let dv = (if endpoint then num - 1 else num);
               delta = stop - start
           in Inr (map (\<lambda>k. if 0 < dv then start + real k * (delta / of_int dv)
                              else start + real k * delta) [0..<nat num]))"

text \<open>
  \<open>np.meshgrid(a, b, indexing="ij")\<close>: the first result varies along axis 0.
  \<open>np.meshgrid(a, b)\<close> (indexing "xy"): the first result varies along axis 1.
\<close>

definition meshgrid_ij :: "'a list \<Rightarrow> 'b list \<Rightarrow> 'a list list \<times> 'b list list" where
  "meshgrid_ij a b =
     (tab2 (length a) (length b) (\<lambda>i j. a ! i), tab2 (length a) (length b) (\<lambda>i j. b ! j))"

definition meshgrid_xy :: "'a list \<Rightarrow> 'b list \<Rightarrow> 'a list list \<times> 'b list list" where
  "meshgrid_xy a b =
     (tab2 (length b) (length a) (\<lambda>i j. a ! j), tab2 (length b) (length a) (\<lambda>i j. b ! i))"

subsection \<open>build\_grid\<close>

definition build_grid :: "int \<Rightarrow> error + (arr2 \<times> arr2)" where
  "build_grid resolution =
     ebind (linspace 0 1 resolution False) (\<lambda>axis. Inr (meshgrid_ij axis axis))"

subsection \<open>stream\_function\<close>

definition stream_function1 :: "real \<Rightarrow> real \<Rightarrow> real \<Rightarrow> real" where
  "stream_function1 x y t =
     (let base = sin (2 * pi * (3 * x + 0.7 * t)) * sin (2 * pi * (3 * y - 0.5 * t));
          swirl = cos (2 * pi * (2 * x - 0.3 * t)) * cos (2 * pi * (2 * y + 0.4 * t));
          ripple = sin (2 * pi * (4 * x + y + 0.2 * t))
      in base + 0.6 * swirl + 0.25 * ripple)"

definition stream_function :: "arr2 \<Rightarrow> arr2 \<Rightarrow> real \<Rightarrow> error + arr2" where
  "stream_function x y t = broadcast2 (\<lambda>xv yv. stream_function1 xv yv t) x y"

subsection \<open>np.gradient with unit spacing and edge order 1\<close>

definition gradient1 :: "arr1 \<Rightarrow> arr1" where
  "gradient1 f =
     (let n = length f
      in map (\<lambda>i. if i = 0 then f ! 1 - f ! 0
                   else if i = n - 1 then f ! (n - 1) - f ! (n - 2)
                   else (f ! (i + 1) - f ! (i - 1)) / 2) [0..<n])"

text \<open>An axis shorter than 2 raises ValueError (shape too small for a gradient).\<close>

definition np_gradient :: "nat \<Rightarrow> arr2 \<Rightarrow> error + arr2" where
  "np_gradient axis a =
     (if axis = 0 then
        (if nrows a < 2 then Inl ValueError
         else Inr (tab2 (nrows a) (ncols a) (\<lambda>i j. gradient1 (map (\<lambda>r. r ! j) a) ! i)))
      else
        (if ncols a < 2 then Inl ValueError
         else Inr (map gradient1 a)))"

subsection \<open>gaussian\_blur\<close>

text \<open>
  \<open>radius = int(max(1, sigma * 3))\<close>: the product is a float64 product, and \<open>int\<close>
  truncates. (For an infinite product \<open>int\<close> raises OverflowError.)
\<close>

definition gaussian_radius :: "real \<Rightarrow> nat" where
  "gaussian_radius sigma = nat \<lfloor>max 1 (f64_round (sigma * 3))\<rfloor>"

definition gaussian_raw :: "real \<Rightarrow> arr1" where
  "gaussian_raw sigma =
     (let radius = gaussian_radius sigma;
          offsets = map (\<lambda>k. int k - int radius) [0..<2 * radius + 1]
      in map (\<lambda>off. exp (- ((of_int off)\<^sup>2) / (2 * sigma\<^sup>2))) offsets)"

definition gaussian_weights :: "real \<Rightarrow> arr1" where
  "gaussian_weights sigma =
     (let weights = gaussian_raw sigma; s = sum_list weights
      in map (\<lambda>w. w / s) weights)"

text \<open>Reading a vector with zeros beyond its ends.\<close>

definition zget :: "arr1 \<Rightarrow> int \<Rightarrow> real" where
  "zget xs i = (if 0 \<le> i \<and> i < int (length xs) then xs ! nat i else 0)"

text \<open>
  numpy's \<open>correlate(a, v, mode="same")\<close> for \<open>len a \<ge> len v\<close>: the output has the
  length of \<open>a\<close>, and \<open>out[i] = \<Sum>j. a[i + j - len v div 2] * v[j]\<close> with zeros outside \<open>a\<close>.
\<close>

definition correlate_same :: "arr1 \<Rightarrow> arr1 \<Rightarrow> arr1" where
  "correlate_same a v =
     (let n = length v; n_left = n div 2
      in map (\<lambda>i. sum_list (map (\<lambda>j. zget a (int i + int j - int n_left) * v ! j) [0..<n]))
           [0..<length a])"

text \<open>
  \<open>np.convolve(a, v, mode="same")\<close>: the longer operand comes first, an empty operand
  raises, and the result is the correlation with the reversed second operand. Its length
  is that of the longer operand.
\<close>

definition np_convolve_same :: "arr1 \<Rightarrow> arr1 \<Rightarrow> error + arr1" where
  "np_convolve_same a v =
     (let (a', v') = (if length a < length v then (v, a) else (a, v))
      in if length a' = 0 then Inl ValueError
         else if length v' = 0 then Inl ValueError
         else Inr (correlate_same a' (rev v')))"

text \<open>The value \<open>np.convolve(a, v, "same")\<close> returns when neither operand is empty.\<close>

definition convolve_out :: "arr1 \<Rightarrow> arr1 \<Rightarrow> arr1" where
  "convolve_out a v =
     (if length a < length v then correlate_same v (rev a) else correlate_same a (rev v))"

text \<open>
  \<open>np.apply_along_axis(\<lambda>m. np.convolve(m, weights, "same"), axis, field)\<close> on a
  3-dimensional field. An empty iteration extent raises; so does the convolution of an
  empty line. The blurred axis takes the length of the convolution's result.
\<close>

definition line0 :: "arr3 \<Rightarrow> nat \<Rightarrow> nat \<Rightarrow> arr1" where
  "line0 f j k = map (\<lambda>r. r ! j ! k) f"

definition line1 :: "arr3 \<Rightarrow> nat \<Rightarrow> nat \<Rightarrow> arr1" where
  "line1 f i k = map (\<lambda>p. p ! k) (f ! i)"

definition blur_axis0 :: "arr1 \<Rightarrow> arr3 \<Rightarrow> error + arr3" where
  "blur_axis0 weights f =
     (if ncols f = 0 \<or> nchan f = 0 then Inl ValueError
      else ebind (np_convolve_same (line0 f 0 0) weights) (\<lambda>first.
        ebind (sequence_err (map (\<lambda>j. sequence_err
                 (map (\<lambda>k. np_convolve_same (line0 f j k) weights) [0..<nchan f]))
                 [0..<ncols f])) (\<lambda>res.
          Inr (tab3 (length first) (ncols f) (nchan f) (\<lambda>i j k. res ! j ! k ! i)))))"

definition blur_axis1 :: "arr1 \<Rightarrow> arr3 \<Rightarrow> error + arr3" where
  "blur_axis1 weights f =
     (if nrows f = 0 \<or> nchan f = 0 then Inl ValueError
      else ebind (np_convolve_same (line1 f 0 0) weights) (\<lambda>first.
        ebind (sequence_err (map (\<lambda>i. sequence_err
                 (map (\<lambda>k. np_convolve_same (line1 f i k) weights) [0..<nchan f]))
                 [0..<nrows f])) (\<lambda>res.
          Inr (tab3 (nrows f) (length first) (nchan f) (\<lambda>i j k. res ! i ! k ! j)))))"

definition gaussian_blur :: "arr3 \<Rightarrow> real \<Rightarrow> error + arr3" where
  "gaussian_blur field sigma =
     (if sigma \<le> 0 then Inr field
      else let weights = gaussian_weights sigma
           in ebind (blur_axis0 weights field) (blur_axis1 weights))"

subsection \<open>velocity\_field\<close>

text \<open>\<open>np.stack((u, v), axis=-1)\<close>: the two arrays must have the same shape.\<close>

definition stack2 :: "arr2 \<Rightarrow> arr2 \<Rightarrow> error + arr3" where
  "stack2 u v =
     (if nrows u = nrows v \<and> ncols u = ncols v
      then Inr (tab3 (nrows u) (ncols u) 2 (\<lambda>i j k. if k = 0 then u ! i ! j else v ! i ! j))
      else Inl ValueError)"

definition velocity_field :: "int \<Rightarrow> real \<Rightarrow> real \<Rightarrow> error + arr3" where
  "velocity_field resolution t strength =
     ebind (build_grid resolution) (\<lambda>(x, y).
     ebind (stream_function x y t) (\<lambda>psi.
     ebind (np_gradient 0 psi) (\<lambda>dpsi_dy.
     ebind (np_gradient 1 psi) (\<lambda>dpsi_dx.
       let u = map (map (\<lambda>d. d * strength * of_int resolution)) dpsi_dy;
           v = map (map (\<lambda>d. - d * strength * of_int resolution)) dpsi_dx
       in ebind (stack2 u v) (\<lambda>velocity. gaussian_blur velocity 1)))))"

subsection \<open>bilinear\_sample\<close>

text \<open>
  numpy indexing with an integer: a negative index counts from the end, anything out of
  range raises IndexError.
\<close>

definition np_index :: "'a list \<Rightarrow> int \<Rightarrow> error + 'a" where
  "np_index xs i =
     (if 0 \<le> i \<and> i < int (length xs) then Inr (xs ! nat i)
      else if - int (length xs) \<le> i \<and> i < 0 then Inr (xs ! nat (int (length xs) + i))
      else Inl IndexError)"

definition np_index2 :: "'a list list \<Rightarrow> int \<Rightarrow> int \<Rightarrow> error + 'a" where
  "np_index2 a i j = ebind (np_index a i) (\<lambda>row. np_index row j)"

text \<open>
  One sample of \<open>bilinear_sample\<close>, in exact arithmetic: the coordinates \<open>x\<close>, \<open>y\<close> are
  one entry of the coordinate arrays, the result is the channel vector of that entry.
  The offsets \<open>fx\<close>, \<open>fy\<close> are taken from the clamped \<open>x0\<close>, \<open>y0\<close>, against the unclamped
  coordinates.
\<close>

definition bilinear_at :: "arr3 \<Rightarrow> real \<Rightarrow> real \<Rightarrow> error + arr1" where
  "bilinear_at field x y =
     (let h = int (nrows field); w = int (ncols field);
          x0 = \<lfloor>x\<rfloor>; y0 = \<lfloor>y\<rfloor>;
          x1 = np_clip (x0 + 1) 0 (w - 1);
          y1 = np_clip (y0 + 1) 0 (h - 1);
          x0 = np_clip x0 0 (w - 1);
          y0 = np_clip y0 0 (h - 1);
          fx = x - of_int x0;
          fy = y - of_int y0
      in ebind (np_index2 field y0 x0) (\<lambda>f00.
         ebind (np_index2 field y0 x1) (\<lambda>f01.
         ebind (np_index2 field y1 x0) (\<lambda>f10.
         ebind (np_index2 field y1 x1) (\<lambda>f11.
           let top = map2 (\<lambda>a b. a * (1 - fx) + b * fx) f00 f01;
               bottom = map2 (\<lambda>a b. a * (1 - fx) + b * fx) f10 f11
           in Inr (map2 (\<lambda>t b. t * (1 - fy) + b * fy) top bottom))))))"

text \<open>
  The sampler on coordinate arrays. Index arrays that cannot be broadcast against each
  other make \<open>field[y0, x0]\<close> raise IndexError.
\<close>

definition bilinear_sample :: "arr3 \<Rightarrow> arr2 \<Rightarrow> arr2 \<Rightarrow> error + arr3" where
  "bilinear_sample field x y =
     (case broadcast2 (\<lambda>xv yv. bilinear_at field xv yv) x y of
        Inl e \<Rightarrow> Inl IndexError
      | Inr cells \<Rightarrow> sequence_err (map sequence_err cells))"

text \<open>
  One sample with every float64 operation of lines 91 to 96 rounded: the subtraction
  \<open>x - x0\<close>, the differences \<open>1 - fx\<close> and \<open>1 - fy\<close>, each product and each sum. The field
  values and the coordinates are taken to be float64 values.
\<close>

definition blend_f64 :: "real \<Rightarrow> real \<Rightarrow> real \<Rightarrow> real" where
  "blend_f64 f a b = f64_round (f64_round (a * f64_round (1 - f)) + f64_round (b * f))"

definition bilinear_at_f64 :: "arr3 \<Rightarrow> real \<Rightarrow> real \<Rightarrow> error + arr1" where
  "bilinear_at_f64 field x y =
     (let h = int (nrows field); w = int (ncols field);
          x0 = \<lfloor>x\<rfloor>; y0 = \<lfloor>y\<rfloor>;
          x1 = np_clip (x0 + 1) 0 (w - 1);
          y1 = np_clip (y0 + 1) 0 (h - 1);
          x0 = np_clip x0 0 (w - 1);
          y0 = np_clip y0 0 (h - 1);
          fx = f64_round (x - of_int x0);
          fy = f64_round (y - of_int y0)
      in ebind (np_index2 field y0 x0) (\<lambda>f00.
         ebind (np_index2 field y0 x1) (\<lambda>f01.
         ebind (np_index2 field y1 x0) (\<lambda>f10.
         ebind (np_index2 field y1 x1) (\<lambda>f11.
           let top = map2 (blend_f64 fx) f00 f01;
               bottom = map2 (blend_f64 fx) f10 f11
           in Inr (map2 (blend_f64 fy) top bottom))))))"

definition bilinear_sample_f64 :: "arr3 \<Rightarrow> arr2 \<Rightarrow> arr2 \<Rightarrow> error + arr3" where
  "bilinear_sample_f64 field x y =
     (case broadcast2 (\<lambda>xv yv. bilinear_at_f64 field xv yv) x y of
        Inl e \<Rightarrow> Inl IndexError
      | Inr cells \<Rightarrow> sequence_err (map sequence_err cells))"

subsection \<open>advect\<close>

text \<open>
  \<open>velocity[..., k]\<close>: component \<open>k\<close> of every cell. An array without cells is taken to
  have the components asked for and keeps its empty shape; otherwise a cell with too few
  components raises IndexError.
\<close>

definition component :: "nat \<Rightarrow> arr3 \<Rightarrow> error + arr2" where
  "component k v =
     (if nrows v = 0 \<or> ncols v = 0 then Inr (map (map (\<lambda>p. p ! k)) v)
      else if k < nchan v then Inr (map (map (\<lambda>p. p ! k)) v)
      else Inl IndexError)"

definition advect :: "arr3 \<Rightarrow> arr3 \<Rightarrow> real \<Rightarrow> error + arr3" where
  "advect field velocity dt =
     (let h = nrows field; w = ncols field;
          (y, x) = meshgrid_ij (map real [0..<h]) (map real [0..<w])
      in ebind (component 0 velocity) (\<lambda>vel0.
         ebind (broadcast2 (\<lambda>xv u. xv - dt * u) x vel0) (\<lambda>x_back.
         ebind (component 1 velocity) (\<lambda>vel1.
         ebind (broadcast2 (\<lambda>yv v. yv - dt * v) y vel1) (\<lambda>y_back.
           let x_back = map (map (\<lambda>v. np_clip v 0 (real_of_int (int w - 1)))) x_back;
               y_back = map (map (\<lambda>v. np_clip v 0 (real_of_int (int h - 1)))) y_back
           in bilinear_sample field x_back y_back)))))"

subsection \<open>create\_initial\_dye\<close>

text \<open>
  The draws of the seeded generator are a parameter: \<open>noise n i j c\<close> is entry
  \<open>(i, j, c)\<close> of \<open>rng.normal(0.0, 20.0, size=(n, n, 3))\<close> for the generator seeded
  with 42. \<open>np.full\<close> raises ValueError on a negative extent.
\<close>

definition create_initial_dye :: "(int \<Rightarrow> nat \<Rightarrow> nat \<Rightarrow> nat \<Rightarrow> real) \<Rightarrow> int \<Rightarrow> error + arr3" where
  "create_initial_dye noise resolution =
     (if resolution < 0 then Inl ValueError
      else let n = nat resolution;
               base_color = [30, 90, 180];
               dye = tab3 n n 3 (\<lambda>i j c. base_color ! c);
               turbulence = tab3 n n 3 (noise resolution)
           in ebind (broadcast3 (\<lambda>d t. d + t) dye turbulence) (\<lambda>dye.
              ebind (linspace (- 1) 1 resolution True) (\<lambda>axis.
                let (gx, gy) = meshgrid_xy axis axis;
                    vignette = tab2 (nrows gx) (ncols gx)
                                 (\<lambda>i j. sqrt ((gx ! i ! j)\<^sup>2 + (gy ! i ! j)\<^sup>2));
                    vignette = map (map (\<lambda>v. np_clip (1 - 0.8 * v) 0.2 1)) vignette
                in ebind (broadcast3 (\<lambda>d v. d * v) dye (map (map (\<lambda>v. [v])) vignette)) (\<lambda>dye.
                     Inr (map (map (map (\<lambda>v. np_clip v 0 255))) dye)))))"

subsection \<open>run\_simulation\<close>

record SimulationConfig =
  resolution :: int
  steps :: int
  dt :: real
  strength :: real
  output_dir :: string
  gif_name :: string
  live_view :: bool
  fps :: int

text \<open>The defaults of the dataclass.\<close>

definition default_config :: SimulationConfig where
  "default_config =
     \<lparr>resolution = 512, steps = 180, dt = 0.6, strength = 1.4,
      output_dir = ''output_frames'', gif_name = ''water_flow.gif'',
      live_view = True, fps = 60\<rparr>"

text \<open>
  \<open>astype(np.uint8)\<close> truncates towards zero and keeps the low 8 bits.
\<close>

definition astype_uint8 :: "real \<Rightarrow> 8 word" where
  "astype_uint8 v = word_of_int (if 0 \<le> v then \<lfloor>v\<rfloor> else \<lceil>v\<rceil>)"

definition to_frame :: "arr3 \<Rightarrow> frame" where
  "to_frame dye = map (map (map (\<lambda>v. astype_uint8 (np_clip v 0 255)))) dye"

text \<open>
  The update of the dye buffer in one pass of the loop (lines 152 to 157). The division
  \<open>step / config.steps\<close> raises for \<open>steps = 0\<close>; inside \<open>run_simulation\<close> the loop is
  empty in that case.
\<close>

definition dissipate :: "arr3 \<Rightarrow> arr3 \<Rightarrow> error + arr3" where
  "dissipate dye base_dye = broadcast3 (\<lambda>d b. 0.995 * d + 0.005 * b) dye base_dye"

definition sim_step :: "SimulationConfig \<Rightarrow> arr3 \<Rightarrow> nat \<Rightarrow> arr3 \<Rightarrow> error + arr3" where
  "sim_step config base_dye step dye =
     (if steps config = 0 then Inl ZeroDivisionError
      else let t = real step / real_of_int (steps config) * 6
           in ebind (velocity_field (resolution config) t (strength config)) (\<lambda>vel.
              ebind (advect dye vel (dt config)) (\<lambda>dye.
                dissipate dye base_dye)))"

text \<open>
  The loop over \<open>range(config.steps)\<close>, with the dye buffer and the frames collected so
  far as state; it returns the last dye buffer together with the frames. The live view
  only paints; it is not part of the state.
\<close>

fun sim_loop ::
  "SimulationConfig \<Rightarrow> arr3 \<Rightarrow> nat list \<Rightarrow> arr3 \<Rightarrow> frame list
   \<Rightarrow> error + (arr3 \<times> frame list)" where
  "sim_loop config base_dye [] dye frames = Inr (dye, frames)"
| "sim_loop config base_dye (step # rest) dye frames =
     (case sim_step config base_dye step dye of
        Inl e \<Rightarrow> Inl e
      | Inr dye' \<Rightarrow> sim_loop config base_dye rest dye' (frames @ [to_frame dye']))"

text \<open>
  \<open>ax.imshow\<close> on the first frame: matplotlib refuses an image with an empty extent
  (ValueError).
\<close>

definition imshow :: "frame \<Rightarrow> error + unit" where
  "imshow img = (if nrows img = 0 \<or> ncols img = 0 then Inl ValueError else Inr ())"

text \<open>
  \<open>run_simulation\<close>: the initial dye, then \<open>1.0 / config.fps\<close> (which raises for
  \<open>fps = 0\<close>), then, with the live view on, \<open>imshow\<close> of the initial dye, then the loop;
  the frames are returned.
\<close>

definition run_simulation ::
  "(int \<Rightarrow> nat \<Rightarrow> nat \<Rightarrow> nat \<Rightarrow> real) \<Rightarrow> SimulationConfig \<Rightarrow> error + frame list" where
  "run_simulation noise config =
     ebind (create_initial_dye noise (resolution config)) (\<lambda>base_dye.
       if fps config = 0 then Inl ZeroDivisionError
       else ebind (if live_view config then imshow (to_frame base_dye) else Inr ()) (\<lambda>shown.
            ebind (sim_loop config base_dye [0..<nat (steps config)] base_dye [])
              (\<lambda>(dye, frames). Inr frames)))"

subsection \<open>Reference definitions used to state the properties\<close>

text \<open>
  The direct two-dimensional convolution the specification compares the blur with: the
  kernel is the outer product of the 1D weights with themselves, the field is read as 0
  beyond its bounds, and the output has the shape of the input.
\<close>

definition zget3 :: "arr3 \<Rightarrow> int \<Rightarrow> int \<Rightarrow> nat \<Rightarrow> real" where
  "zget3 f y x k =
     (if 0 \<le> y \<and> y < int (nrows f) \<and> 0 \<le> x \<and> x < int (ncols f)
      then f ! nat y ! nat x ! k else 0)"

definition spec_conv2d_direct :: "arr1 \<Rightarrow> arr3 \<Rightarrow> arr3" where
  "spec_conv2d_direct weights f =
     (let n = length weights; r = int (n div 2)
      in tab3 (nrows f) (ncols f) (nchan f) (\<lambda>i j k.
           sum_list (map (\<lambda>a. sum_list (map (\<lambda>b.
               (weights ! a * weights ! b) * zget3 f (int i + r - int a) (int j + r - int b) k)
             [0..<n])) [0..<n])))"

text \<open>A noise array for concrete runs: every draw is 0.\<close>

definition zero_noise :: "int \<Rightarrow> nat \<Rightarrow> nat \<Rightarrow> nat \<Rightarrow> real" where
  "zero_noise n i j c = 0"

definition all_between :: "real \<Rightarrow> real \<Rightarrow> arr3 \<Rightarrow> bool" where
  "all_between lo hi a = list_all (list_all (list_all (\<lambda>v. lo \<le> v \<and> v \<le> hi))) a"

definition all_zero :: "arr3 \<Rightarrow> bool" where
  "all_zero v = list_all (list_all (list_all (\<lambda>z. z = 0))) v"

section \<open>Evaluating the float64 rounding\<close>

lemma f64_exponent_eq:
  assumes "2 powi e \<le> \<bar>x\<bar>" "\<bar>x\<bar> < 2 powi (e + 1)" "- 1022 \<le> e"
  shows "f64_exponent x = e"
proof -
  have pos: "0 < \<bar>x\<bar>" using assms(1) by (smt (verit) zero_less_power_int zero_less_numeral)
  have a: "(2::real) powr real_of_int e = 2 powi e"
    by (rule powr_real_of_int') simp_all
  have b: "(2::real) powr real_of_int (e + 1) = 2 powi (e + 1)"
    by (rule powr_real_of_int') simp_all
  have "2 powr real_of_int e \<le> \<bar>x\<bar> \<and> \<bar>x\<bar> < 2 powr real_of_int (e + 1)"
    unfolding a b using assms(1,2) by simp
  then have "\<lfloor>log 2 \<bar>x\<bar>\<rfloor> = e"
    using floor_log_eq_powr_iff [of "\<bar>x\<bar>" 2 e] pos by simp
  then show ?thesis using assms(3) by (simp add: f64_exponent_def)
qed

lemma f64_round_eval:
  assumes "2 powi e \<le> \<bar>x\<bar>" "\<bar>x\<bar> < 2 powi (e + 1)" "- 1022 \<le> e"
  shows "f64_round x = of_int (round_half_even (x / 2 powi (e - 52))) * 2 powi (e - 52)"
proof -
  have "x \<noteq> 0" using assms(1) by (smt (verit) zero_less_power_int zero_less_numeral)
  then show ?thesis
    by (simp add: f64_round_def Let_def f64_exponent_eq [OF assms])
qed

lemma f64_round_0 [simp]: "f64_round 0 = 0"
  by (simp add: f64_round_def)

lemma f64_round_1 [simp]: "f64_round 1 = 1"
  by (subst f64_round_eval [of 0]) (simp_all add: round_half_even_def Let_def power_int_minus)

lemma f64_round_3 [simp]: "f64_round 3 = 3"
  by (subst f64_round_eval [of 1]) (simp_all add: round_half_even_def Let_def power_int_minus)

section \<open>Facts about arrays and broadcasting\<close>

lemma ebind_Inr [simp]: "ebind (Inr v) f = f v" by (simp add: ebind_def)
lemma ebind_Inl [simp]: "ebind (Inl e) f = Inl e" by (simp add: ebind_def)

lemma length_tab2 [simp]: "length (tab2 h w f) = h" by (simp add: tab2_def)
lemma nth_tab2_row [simp]: "i < h \<Longrightarrow> tab2 h w f ! i = map (f i) [0..<w]" by (simp add: tab2_def)
lemma nth_tab2: "i < h \<Longrightarrow> j < w \<Longrightarrow> tab2 h w f ! i ! j = f i j" by simp
lemma length_tab3 [simp]: "length (tab3 h w c f) = h" by (simp add: tab3_def)
lemma nth_tab3_row [simp]: "i < h \<Longrightarrow> tab3 h w c f ! i = map (\<lambda>j. map (f i j) [0..<c]) [0..<w]" by (simp add: tab3_def)
lemma nth_tab3: "i < h \<Longrightarrow> j < w \<Longrightarrow> k < c \<Longrightarrow> tab3 h w c f ! i ! j ! k = f i j k" by simp

lemma is_arr2_tab2 [simp]: "is_arr2 h w (tab2 h w f)" by (simp add: is_arr2_def tab2_def list_all_iff)
lemma is_arr3_tab3 [simp]: "is_arr3 h w c (tab3 h w c f)" by (simp add: is_arr3_def tab3_def list_all_iff)

lemma is_arr2_nth: "is_arr2 h w a \<Longrightarrow> i < h \<Longrightarrow> length (a ! i) = w"
  by (auto simp: is_arr2_def list_all_length)
lemma is_arr3_nth: "is_arr3 h w c a \<Longrightarrow> i < h \<Longrightarrow> length (a ! i) = w"
  by (auto simp: is_arr3_def list_all_length)
lemma is_arr3_nth2: "is_arr3 h w c a \<Longrightarrow> i < h \<Longrightarrow> j < w \<Longrightarrow> length (a ! i ! j) = c"
  by (auto simp: is_arr3_def list_all_length)
lemma is_arr2_length: "is_arr2 h w a \<Longrightarrow> length a = h" by (simp add: is_arr2_def)
lemma is_arr3_length: "is_arr3 h w c a \<Longrightarrow> length a = h" by (simp add: is_arr3_def)

lemma nrows_arr2: "is_arr2 h w a \<Longrightarrow> nrows a = h" by (simp add: is_arr2_def nrows_def)
lemma ncols_arr2: "is_arr2 h w a \<Longrightarrow> 0 < h \<Longrightarrow> ncols a = w"
  by (cases a) (auto simp: is_arr2_def ncols_def)
lemma nrows_arr3: "is_arr3 h w c a \<Longrightarrow> nrows a = h" by (simp add: is_arr3_def nrows_def)
lemma ncols_arr3: "is_arr3 h w c a \<Longrightarrow> 0 < h \<Longrightarrow> ncols a = w"
  by (cases a) (auto simp: is_arr3_def ncols_def)
lemma nchan_arr3: "is_arr3 h w c a \<Longrightarrow> 0 < h \<Longrightarrow> 0 < w \<Longrightarrow> nchan a = c"
  by (cases a; cases "hd a") (auto simp: is_arr3_def nchan_def)

lemma arr2_eqI:
  assumes "is_arr2 h w a" "is_arr2 h w b" "\<And>i j. i < h \<Longrightarrow> j < w \<Longrightarrow> a ! i ! j = b ! i ! j"
  shows "a = b"
  using assms by (auto simp: list_eq_iff_nth_eq is_arr2_def list_all_length)

lemma arr3_eqI:
  assumes "is_arr3 h w c a" "is_arr3 h w c b"
    "\<And>i j k. i < h \<Longrightarrow> j < w \<Longrightarrow> k < c \<Longrightarrow> a ! i ! j ! k = b ! i ! j ! k"
  shows "a = b"
  using assms by (auto simp: list_eq_iff_nth_eq is_arr3_def list_all_length)

lemma bshape_same [simp]: "bshape n n = Inr n" by (simp add: bshape_def)
lemma bidx_id: "m \<noteq> 1 \<Longrightarrow> bidx m i = i" by (simp add: bidx_def)
lemma bidx_lt: "i < m \<Longrightarrow> bidx m i = i" by (auto simp: bidx_def)

lemma broadcast2_same:
  assumes "is_arr2 h w a" "is_arr2 h w b" "0 < h"
  shows "broadcast2 f a b = Inr (tab2 h w (\<lambda>i j. f (a ! i ! j) (b ! i ! j)))"
  using assms
  by (simp add: broadcast2_def nrows_arr2 ncols_arr2 tab2_def bidx_lt)

lemma broadcast3_same:
  assumes "is_arr3 h w c a" "is_arr3 h w c b" "0 < h" "0 < w"
  shows "broadcast3 f a b = Inr (tab3 h w c (\<lambda>i j k. f (a ! i ! j ! k) (b ! i ! j ! k)))"
  using assms
  by (simp add: broadcast3_def nrows_arr3 ncols_arr3 nchan_arr3 tab3_def bidx_lt)

section \<open>The bilinear sampler\<close>

lemma map2_same: "map2 f v v = map (\<lambda>a. f a a) v"
  by (induction v) auto

lemma blend_same: "map2 (\<lambda>a b. a * (1 - fx) + b * fx) v v = (v::real list)"
  by (simp add: map2_same algebra_simps)

lemma map2_fst: "length v = length u \<Longrightarrow> map2 (\<lambda>a b. a) v u = v"
  by (induction v u rule: list_induct2) auto

lemma np_index_in: "0 \<le> i \<Longrightarrow> i < int (length xs) \<Longrightarrow> np_index xs i = Inr (xs ! nat i)"
  by (simp add: np_index_def)

lemma np_index2_in:
  "is_arr3 h w c f \<Longrightarrow> 0 \<le> i \<Longrightarrow> i < int h \<Longrightarrow> 0 \<le> j \<Longrightarrow> j < int w \<Longrightarrow>
   np_index2 f i j = Inr (f ! nat i ! nat j)"
  by (simp add: np_index2_def np_index_in is_arr3_length is_arr3_nth)

lemma bilinear_at_int:
  assumes arr: "is_arr3 h w c field"
    and x: "0 \<le> x" "x < int w" and y: "0 \<le> y" "y < int h"
  shows "bilinear_at field (of_int x) (of_int y) = Inr (field ! nat y ! nat x)"
proof -
  have h: "nrows field = h" and w: "ncols field = w"
    using arr x y by (simp_all add: nrows_arr3 ncols_arr3)
  have cx: "np_clip x 0 (int w - 1) = x" and cy: "np_clip y 0 (int h - 1) = y"
    using x y by (simp_all add: np_clip_def)
  define x1 where "x1 = np_clip (x + 1) 0 (int w - 1)"
  define y1 where "y1 = np_clip (y + 1) 0 (int h - 1)"
  have x1: "0 \<le> x1" "x1 < int w" and y1: "0 \<le> y1" "y1 < int h"
    using x y by (simp_all add: x1_def y1_def np_clip_def)
  have len: "length (field ! nat y ! nat x1) = length (field ! nat y ! nat x)"
       "length (field ! nat y1 ! nat x1) = length (field ! nat y1 ! nat x)"
       "length (field ! nat y1 ! nat x) = length (field ! nat y ! nat x)"
    using arr x y x1 y1 by (simp_all add: is_arr3_nth2)
  show ?thesis
    unfolding bilinear_at_def Let_def h w
    by (simp add: cx cy x1_def [symmetric] y1_def [symmetric]
        np_index2_in [OF arr] x y x1 y1 map2_fst len)
qed

lemma clip_index_range:
  "0 < n \<Longrightarrow> 0 \<le> np_clip v 0 (int n - 1) \<and> np_clip v 0 (int n - 1) < int n"
  by (simp add: np_clip_def)

lemma clip_nat_range: "0 < n \<Longrightarrow> nat (np_clip v 0 (int n - 1)) < n"
  by (simp add: np_clip_def)

lemma bilinear_at_unfold:
  assumes arr: "is_arr3 h w c field" and pos: "0 < h" "0 < w"
  shows "bilinear_at field x y =
     (let x1 = np_clip (\<lfloor>x\<rfloor> + 1) 0 (int w - 1); y1 = np_clip (\<lfloor>y\<rfloor> + 1) 0 (int h - 1);
          x0 = np_clip \<lfloor>x\<rfloor> 0 (int w - 1); y0 = np_clip \<lfloor>y\<rfloor> 0 (int h - 1);
          fx = x - of_int x0; fy = y - of_int y0
      in Inr (map2 (\<lambda>t b. t * (1 - fy) + b * fy)
           (map2 (\<lambda>a b. a * (1 - fx) + b * fx) (field ! nat y0 ! nat x0) (field ! nat y0 ! nat x1))
           (map2 (\<lambda>a b. a * (1 - fx) + b * fx) (field ! nat y1 ! nat x0) (field ! nat y1 ! nat x1))))"
proof -
  have h: "nrows field = h" and w: "ncols field = w"
    using arr pos by (simp_all add: nrows_arr3 ncols_arr3)
  note r = clip_index_range [OF pos(1)] clip_index_range [OF pos(2)]
  show ?thesis
    unfolding bilinear_at_def Let_def h w
    by (simp add: np_index2_in [OF arr] r)
qed

lemma bilinear_at_clamp_x:
  assumes arr: "is_arr3 h w c field" and pos: "0 < h" "0 < w"
  shows "bilinear_at field x y = bilinear_at field (np_clip x 0 (real_of_int (int w - 1))) y"
proof -
  note r = clip_index_range [OF pos(1)] clip_index_range [OF pos(2)]
  have len: "\<And>i j. i < h \<Longrightarrow> j < w \<Longrightarrow> length (field ! i ! j) = c"
    using arr by (simp add: is_arr3_nth2)
  note n = clip_nat_range [OF pos(1)] clip_nat_range [OF pos(2)]
  consider "x < 0" | "0 \<le> x" "x \<le> real_of_int (int w - 1)" | "real_of_int (int w - 1) < x"
    by linarith
  then show ?thesis
  proof cases
    case 1
    then have fl: "\<lfloor>x\<rfloor> \<le> - 1" by (simp add: floor_le_iff)
    have c: "np_clip x 0 (real_of_int (int w - 1)) = 0"
      using 1 pos by (simp add: np_clip_def)
    have a: "np_clip \<lfloor>x\<rfloor> 0 (int w - 1) = 0" "np_clip (\<lfloor>x\<rfloor> + 1) 0 (int w - 1) = 0"
      using fl pos by (simp_all add: np_clip_def)
    have z: "np_clip (0::int) 0 (int w - 1) = 0"
      using pos by (simp add: np_clip_def)
    show ?thesis
      unfolding c bilinear_at_unfold [OF arr pos] Let_def a
      by (simp add: z blend_same map2_fst len n pos)
  next
    case 2
    then have "np_clip x 0 (real_of_int (int w - 1)) = x" by (simp add: np_clip_def)
    then show ?thesis by simp
  next
    case 3
    then have fl: "int w - 1 \<le> \<lfloor>x\<rfloor>" by (simp add: le_floor_iff)
    have c: "np_clip x 0 (real_of_int (int w - 1)) = real_of_int (int w - 1)"
      using 3 pos by (simp add: np_clip_def)
    have a: "np_clip \<lfloor>x\<rfloor> 0 (int w - 1) = int w - 1" "np_clip (\<lfloor>x\<rfloor> + 1) 0 (int w - 1) = int w - 1"
      using fl pos by (simp_all add: np_clip_def)
    have b: "np_clip (int w - 1) 0 (int w - 1) = int w - 1" "np_clip (int w - 1 + 1) 0 (int w - 1) = int w - 1"
      using pos by (simp_all add: np_clip_def)
    show ?thesis
      unfolding c bilinear_at_unfold [OF arr pos] Let_def floor_of_int a b blend_same
      by simp
  qed
qed

lemma bilinear_at_clamp_y:
  assumes arr: "is_arr3 h w c field" and pos: "0 < h" "0 < w"
  shows "bilinear_at field x y = bilinear_at field x (np_clip y 0 (real_of_int (int h - 1)))"
proof -
  have len: "\<And>i j. i < h \<Longrightarrow> j < w \<Longrightarrow> length (field ! i ! j) = c"
    using arr by (simp add: is_arr3_nth2)
  note n = clip_nat_range [OF pos(1)] clip_nat_range [OF pos(2)]
  consider "y < 0" | "0 \<le> y" "y \<le> real_of_int (int h - 1)" | "real_of_int (int h - 1) < y"
    by linarith
  then show ?thesis
  proof cases
    case 1
    then have fl: "\<lfloor>y\<rfloor> \<le> - 1" by (simp add: floor_le_iff)
    have c: "np_clip y 0 (real_of_int (int h - 1)) = 0"
      using 1 pos by (simp add: np_clip_def)
    have a: "np_clip \<lfloor>y\<rfloor> 0 (int h - 1) = 0" "np_clip (\<lfloor>y\<rfloor> + 1) 0 (int h - 1) = 0"
      using fl pos by (simp_all add: np_clip_def)
    have z: "np_clip (0::int) 0 (int h - 1) = 0"
      using pos by (simp add: np_clip_def)
    show ?thesis
      unfolding c bilinear_at_unfold [OF arr pos] Let_def a blend_same
      by (simp add: z map2_fst len n pos)
  next
    case 2
    then have "np_clip y 0 (real_of_int (int h - 1)) = y" by (simp add: np_clip_def)
    then show ?thesis by simp
  next
    case 3
    then have fl: "int h - 1 \<le> \<lfloor>y\<rfloor>" by (simp add: le_floor_iff)
    have c: "np_clip y 0 (real_of_int (int h - 1)) = real_of_int (int h - 1)"
      using 3 pos by (simp add: np_clip_def)
    have a: "np_clip \<lfloor>y\<rfloor> 0 (int h - 1) = int h - 1" "np_clip (\<lfloor>y\<rfloor> + 1) 0 (int h - 1) = int h - 1"
      using fl pos by (simp_all add: np_clip_def)
    have b: "np_clip (int h - 1) 0 (int h - 1) = int h - 1" "np_clip (int h - 1 + 1) 0 (int h - 1) = int h - 1"
      using pos by (simp_all add: np_clip_def)
    show ?thesis
      unfolding c bilinear_at_unfold [OF arr pos] Let_def floor_of_int a b blend_same
      by simp
  qed
qed

lemma bilinear_at_clamp:
  assumes "is_arr3 h w c field" "0 < h" "0 < w"
  shows "bilinear_at field x y =
         bilinear_at field (np_clip x 0 (real_of_int (int w - 1))) (np_clip y 0 (real_of_int (int h - 1)))"
  using bilinear_at_clamp_x [OF assms, of x y]
    bilinear_at_clamp_y [OF assms, of "np_clip x 0 (real_of_int (int w - 1))" y]
  by simp

lemma sequence_err_Inr: "sequence_err (map Inr ys) = Inr ys"
  by (induction ys) auto

lemma sequence_err_rows: "sequence_err (map sequence_err (map (map Inr) a)) = Inr a"
proof -
  have "map sequence_err (map (map Inr) a) = map Inr a"
    by (induction a) (simp_all add: sequence_err_Inr)
  then show ?thesis by (simp only: sequence_err_Inr)
qed

lemma tab2_cong:
  "(\<And>i j. i < h \<Longrightarrow> j < w \<Longrightarrow> f i j = g i j) \<Longrightarrow> tab2 h w f = tab2 h w g"
  by (simp add: tab2_def)

lemma tab3_cong:
  "(\<And>i j k. i < h \<Longrightarrow> j < w \<Longrightarrow> k < c \<Longrightarrow> f i j k = g i j k) \<Longrightarrow> tab3 h w c f = tab3 h w c g"
  by (simp add: tab3_def)

lemma map_map_tab2: "map (map g) (tab2 h w f) = tab2 h w (\<lambda>i j. g (f i j))"
  by (simp add: tab2_def comp_def)

lemma map3_tab3: "map (map (map g)) (tab3 h w c f) = tab3 h w c (\<lambda>i j k. g (f i j k))"
  by (simp add: tab3_def comp_def)

lemma arr2_tab2: "is_arr2 h w a \<Longrightarrow> a = tab2 h w (\<lambda>i j. a ! i ! j)"
  by (rule arr2_eqI [of h w]) simp_all

lemma arr3_tab3: "is_arr3 h w c a \<Longrightarrow> a = tab3 h w c (\<lambda>i j k. a ! i ! j ! k)"
  by (rule arr3_eqI [of h w c]) simp_all

lemma arr3_rows: "is_arr3 h w c a \<Longrightarrow> a = tab2 h w (\<lambda>i j. a ! i ! j)"
  by (auto simp: list_eq_iff_nth_eq is_arr3_def list_all_length)

lemma bilinear_sample_cells:
  assumes "is_arr2 m n xs" "is_arr2 m n ys" "0 < m"
    and "\<And>i j. i < m \<Longrightarrow> j < n \<Longrightarrow> bilinear_at field (xs ! i ! j) (ys ! i ! j) = Inr (g i j)"
  shows "bilinear_sample field xs ys = Inr (tab2 m n g)"
proof -
  have "tab2 m n (\<lambda>i j. bilinear_at field (xs ! i ! j) (ys ! i ! j)) = tab2 m n (\<lambda>i j. Inr (g i j))"
    by (rule tab2_cong) (rule assms(4))
  also have "\<dots> = map (map Inr) (tab2 m n g)"
    by (simp add: map_map_tab2)
  finally show ?thesis
    unfolding bilinear_sample_def
    by (simp only: broadcast2_same [OF assms(1,2,3)] sequence_err_rows sum.case)
qed

lemma bilinear_sample_at_integers:
  assumes "is_arr3 h w c field" "is_arr2 m n xs" "is_arr2 m n ys" "0 < m"
    and "list_all (list_all (\<lambda>x. 0 \<le> x \<and> x < int w)) xs"
    and "list_all (list_all (\<lambda>y. 0 \<le> y \<and> y < int h)) ys"
  shows "bilinear_sample field (map (map real_of_int) xs) (map (map real_of_int) ys)
         = Inr (tab2 m n (\<lambda>i j. field ! nat (ys ! i ! j) ! nat (xs ! i ! j)))"
proof (rule bilinear_sample_cells)
  show "is_arr2 m n (map (map real_of_int) xs)" "is_arr2 m n (map (map real_of_int) ys)"
    using assms(2,3) by (simp_all add: is_arr2_def list_all_iff)
  show "0 < m" by fact
next
  fix i j assume ij: "i < m" "j < n"
  have lx: "length xs = m" "length (xs ! i) = n" and ly: "length ys = m" "length (ys ! i) = n"
    using assms(2,3) ij by (simp_all add: is_arr2_length is_arr2_nth)
  have x: "0 \<le> xs ! i ! j \<and> xs ! i ! j < int w"
    using assms(5) ij lx by (simp add: list_all_length)
  have y: "0 \<le> ys ! i ! j \<and> ys ! i ! j < int h"
    using assms(6) ij ly by (simp add: list_all_length)
  show "bilinear_at field (map (map real_of_int) xs ! i ! j) (map (map real_of_int) ys ! i ! j)
        = Inr (field ! nat (ys ! i ! j) ! nat (xs ! i ! j))"
    using bilinear_at_int [OF assms(1), of "xs ! i ! j" "ys ! i ! j"] x y ij lx ly
    by simp
qed

text \<open>
  Claim C5. For a field of shape \<open>h \<times> w \<times> c\<close> and coordinate arrays whose entries are
  exact integers with \<open>0 \<le> x \<le> w - 1\<close> and \<open>0 \<le> y \<le> h - 1\<close>, \<open>bilinear_sample\<close>
  returns at every entry exactly the cell \<open>field[y, x]\<close>: the fractional offsets are 0, so
  the blend takes the first corner with weight 1 and adds the others with weight 0.
\<close>

theorem bilinear_sample_integer_exact:
  assumes "is_arr3 h w c field" "is_arr2 m n xs" "is_arr2 m n ys" "0 < m"
    and "list_all (list_all (\<lambda>x. 0 \<le> x \<and> x < int w)) xs"
    and "list_all (list_all (\<lambda>y. 0 \<le> y \<and> y < int h)) ys"
  shows "bilinear_sample field (map (map real_of_int) xs) (map (map real_of_int) ys)
         = Inr (tab2 m n (\<lambda>i j. field ! nat (ys ! i ! j) ! nat (xs ! i ! j)))"
  using assms by (rule bilinear_sample_at_integers)

theorem bilinear_sample_integer_exact_witness:
  "is_arr3 2 2 1 [[[1], [2]], [[3], [4 :: real]]] \<and> is_arr2 1 2 [[0, 1 :: int]] \<and> is_arr2 1 2 [[1, 1 :: int]]
   \<and> bilinear_sample [[[1], [2]], [[3], [4]]] [[0, 1]] [[1, 1]] = Inr [[[3], [4]]]"
  using bilinear_sample_integer_exact [of 2 2 1 "[[[1], [2]], [[3], [4]]]" 1 2 "[[0, 1]]" "[[1, 1]]"]
  by (simp add: is_arr3_def is_arr2_def tab2_def upt_rec)

section \<open>Advection\<close>

lemma component_arr:
  assumes "is_arr3 h w c v" "0 < h" "0 < w" "k < c"
  shows "component k v = Inr (tab2 h w (\<lambda>i j. v ! i ! j ! k))"
proof -
  have "map (map (\<lambda>p. p ! k)) v = tab2 h w (\<lambda>i j. v ! i ! j ! k)"
    using assms(1) by (auto simp: list_eq_iff_nth_eq is_arr3_def list_all_length)
  then show ?thesis
    using assms by (simp add: component_def nchan_arr3)
qed

lemma all_zero_nth:
  "all_zero v \<Longrightarrow> is_arr3 h w c v \<Longrightarrow> i < h \<Longrightarrow> j < w \<Longrightarrow> k < c \<Longrightarrow> v ! i ! j ! k = 0"
  by (auto simp: all_zero_def is_arr3_def list_all_length)

lemma advect_unfold:
  assumes f: "is_arr3 h w c field" and v: "is_arr3 h w 2 velocity" and pos: "0 < h" "0 < w"
  shows "advect field velocity delta_t =
     bilinear_sample field
       (tab2 h w (\<lambda>i j. np_clip (real j - delta_t * velocity ! i ! j ! 0) 0 (real_of_int (int w - 1))))
       (tab2 h w (\<lambda>i j. np_clip (real i - delta_t * velocity ! i ! j ! 1) 0 (real_of_int (int h - 1))))"
proof -
  have h: "nrows field = h" and w: "ncols field = w"
    using f pos by (simp_all add: nrows_arr3 ncols_arr3)
  have gx: "tab2 (length (map real [0..<h])) (length (map real [0..<w])) (\<lambda>i j. map real [0..<w] ! j)
            = tab2 h w (\<lambda>i j. real j)"
    by (simp add: tab2_def)
  have gy: "tab2 (length (map real [0..<h])) (length (map real [0..<w])) (\<lambda>i j. map real [0..<h] ! i)
            = tab2 h w (\<lambda>i j. real i)"
    by (simp add: tab2_def)
  have bx: "broadcast2 (\<lambda>xv u. xv - delta_t * u) (tab2 h w (\<lambda>i j. real j))
              (tab2 h w (\<lambda>i j. velocity ! i ! j ! 0))
            = Inr (tab2 h w (\<lambda>i j. real j - delta_t * velocity ! i ! j ! 0))"
    by (simp add: broadcast2_same [OF is_arr2_tab2 is_arr2_tab2 pos(1)] cong: tab2_cong)
  have by': "broadcast2 (\<lambda>yv u. yv - delta_t * u) (tab2 h w (\<lambda>i j. real i))
              (tab2 h w (\<lambda>i j. velocity ! i ! j ! 1))
            = Inr (tab2 h w (\<lambda>i j. real i - delta_t * velocity ! i ! j ! 1))"
    by (simp add: broadcast2_same [OF is_arr2_tab2 is_arr2_tab2 pos(1)] cong: tab2_cong)
  have c0: "component 0 velocity = Inr (tab2 h w (\<lambda>i j. velocity ! i ! j ! 0))"
    using component_arr [OF v pos, of 0] by simp
  have c1: "component 1 velocity = Inr (tab2 h w (\<lambda>i j. velocity ! i ! j ! 1))"
    using component_arr [OF v pos, of 1] by simp
  show ?thesis
    unfolding advect_def Let_def h w meshgrid_ij_def prod.case gx gy c0 c1
      ebind_Inr bx by' map_map_tab2
    by simp
qed

lemma advect_zero_field:
  assumes f: "is_arr3 h w c field" and v: "is_arr3 h w 2 velocity" and pos: "0 < h" "0 < w"
    and z: "all_zero velocity"
  shows "advect field velocity delta_t = Inr field"
proof -
  have x: "tab2 h w (\<lambda>i j. np_clip (real j - delta_t * velocity ! i ! j ! 0) 0 (real_of_int (int w - 1)))
           = map (map real_of_int) (tab2 h w (\<lambda>i j. int j))"
    unfolding map_map_tab2
    by (rule tab2_cong) (simp add: all_zero_nth [OF z v] np_clip_def)
  have y: "tab2 h w (\<lambda>i j. np_clip (real i - delta_t * velocity ! i ! j ! 1) 0 (real_of_int (int h - 1)))
           = map (map real_of_int) (tab2 h w (\<lambda>i j. int i))"
    unfolding map_map_tab2
    by (rule tab2_cong) (simp add: all_zero_nth [OF z v] np_clip_def)
  have "advect field velocity delta_t = Inr (tab2 h w (\<lambda>i j. field ! nat (tab2 h w (\<lambda>i j. int i) ! i ! j)
          ! nat (tab2 h w (\<lambda>i j. int j) ! i ! j)))"
    unfolding advect_unfold [OF f v pos] x y
    by (rule bilinear_sample_at_integers [OF f is_arr2_tab2 is_arr2_tab2 pos(1)])
       (simp_all add: tab2_def list_all_iff)
  also have "tab2 h w (\<lambda>i j. field ! nat (tab2 h w (\<lambda>i j. int i) ! i ! j)
          ! nat (tab2 h w (\<lambda>i j. int j) ! i ! j)) = tab2 h w (\<lambda>i j. field ! i ! j)"
    by (rule tab2_cong) simp
  also have "\<dots> = field"
    using arr3_rows [OF f] by simp
  finally show ?thesis .
qed

text \<open>
  Claim C7. For a field of shape \<open>h \<times> w \<times> c\<close>, a velocity field of shape \<open>h \<times> w \<times> 2\<close>
  that is zero everywhere and any \<open>dt\<close>, \<open>advect\<close> returns the field it was given.
\<close>

theorem advect_zero_velocity:
  assumes f: "is_arr3 h w c field" and v: "is_arr3 h w 2 velocity" and pos: "0 < h" "0 < w"
    and z: "all_zero velocity"
  shows "advect field velocity delta_t = Inr field"
  using assms by (rule advect_zero_field)

theorem advect_zero_velocity_witness:
  "is_arr3 2 2 1 [[[1], [2]], [[3], [4 :: real]]]
   \<and> is_arr3 2 2 2 [[[0, 0], [0, 0]], [[0, 0], [0, 0 :: real]]]
   \<and> all_zero [[[0, 0], [0, 0]], [[0, 0], [0, 0]]]
   \<and> advect [[[1], [2]], [[3], [4]]] [[[0, 0], [0, 0]], [[0, 0], [0, 0]]] (6 / 10)
       = Inr [[[1], [2]], [[3], [4]]]"
  using advect_zero_velocity [of 2 2 1 "[[[1], [2]], [[3], [4]]]"
      "[[[0, 0], [0, 0]], [[0, 0], [0, 0]]]" "6 / 10"]
  by (simp add: is_arr3_def all_zero_def)

section \<open>The coordinate grid\<close>

lemma linspace_grid:
  "0 < n \<Longrightarrow> linspace 0 1 n False = Inr (map (\<lambda>k. real k / real_of_int n) [0..<nat n])"
  by (simp add: linspace_def)

lemma build_grid_values:
  assumes "0 \<le> n"
  shows "build_grid n = Inr (tab2 (nat n) (nat n) (\<lambda>i j. real i / real_of_int n),
                            tab2 (nat n) (nat n) (\<lambda>i j. real j / real_of_int n))"
proof (cases "n = 0")
  case True
  then show ?thesis by (simp add: build_grid_def linspace_def meshgrid_ij_def tab2_def)
next
  case False
  with assms have "0 < n" by simp
  then show ?thesis
    by (simp add: build_grid_def linspace_grid meshgrid_ij_def tab2_def)
qed

text \<open>
  Claim C3. \<open>build_grid(2)\<close>: the first array returned is constant along each row and
  grows with the row index, \<open>X[i, j] = i / 2\<close>; the second grows with the column index.
  The claim asks for \<open>X[0, 1] = 1 / 2\<close> and \<open>X[1, 0] = 0\<close>.
\<close>

theorem build_grid_2:
  "build_grid 2 = Inr ([[0, 0], [1 / 2, 1 / 2]], [[0, 1 / 2], [0, 1 / 2]])"
  by (simp add: build_grid_def linspace_def meshgrid_ij_def tab2_def upt_rec)

section \<open>The Gaussian kernel\<close>

lemma sum_list_pos_real:
  "xs \<noteq> [] \<Longrightarrow> (\<And>x. x \<in> set xs \<Longrightarrow> 0 < x) \<Longrightarrow> 0 < sum_list (xs :: real list)"
proof (induction xs)
  case Nil
  then show ?case by simp
next
  case (Cons a xs)
  then show ?case
    by (cases xs) (auto intro: add_pos_pos)
qed

lemma sum_list_divide: "sum_list (map (\<lambda>w. w / s) ws) = sum_list ws / (s :: real)"
  by (induction ws) (simp_all add: add_divide_distrib)

lemma gaussian_radius_floor:
  "gaussian_radius sigma = nat (max 1 \<lfloor>f64_round (sigma * 3)\<rfloor>)"
  unfolding gaussian_radius_def
  by (simp add: max_def le_floor_iff)

lemma gaussian_radius_exact:
  "f64_round (sigma * 3) = sigma * 3 \<Longrightarrow> gaussian_radius sigma = nat (max 1 \<lfloor>3 * sigma\<rfloor>)"
  by (simp add: gaussian_radius_floor mult.commute)

lemma gaussian_radius_ge1: "1 \<le> gaussian_radius sigma"
  unfolding gaussian_radius_def by (simp add: le_nat_iff le_floor_iff)

lemma length_gaussian_raw: "length (gaussian_raw sigma) = 2 * gaussian_radius sigma + 1"
  by (simp add: gaussian_raw_def Let_def)

lemma nth_gaussian_raw:
  "k < 2 * gaussian_radius sigma + 1 \<Longrightarrow>
   gaussian_raw sigma ! k = exp (- ((real k - real (gaussian_radius sigma))\<^sup>2) / (2 * sigma\<^sup>2))"
  by (simp add: gaussian_raw_def Let_def del: upt_Suc)

lemma gaussian_raw_sum_pos: "0 < sum_list (gaussian_raw sigma)"
proof (rule sum_list_pos_real)
  show "gaussian_raw sigma \<noteq> []"
    using length_gaussian_raw [of sigma] by auto
  fix x assume "x \<in> set (gaussian_raw sigma)"
  then show "0 < x" by (auto simp: gaussian_raw_def Let_def)
qed

lemma length_gaussian_weights: "length (gaussian_weights sigma) = 2 * gaussian_radius sigma + 1"
  by (simp add: gaussian_weights_def Let_def length_gaussian_raw)

lemma gaussian_weights_sum: "sum_list (gaussian_weights sigma) = 1"
  using gaussian_raw_sum_pos [of sigma]
  by (simp add: gaussian_weights_def Let_def sum_list_divide)




section \<open>The separable blur\<close>

lemma sum_list_upt: "sum_list (map g [0..<n]) = (\<Sum>j<n. (g j :: real))"
  by (simp add: interv_sum_list_conv_sum_set_nat atLeast0LessThan)

lemma length_correlate_same [simp]: "length (correlate_same a v) = length a"
  by (simp add: correlate_same_def Let_def)

lemma nth_correlate_same:
  assumes "i < length a"
  shows "correlate_same a v ! i
         = (\<Sum>j<length v. zget a (int i + int j - int (length v div 2)) * v ! j)"
  using assms by (simp add: correlate_same_def Let_def sum_list_upt del: upt_Suc)

lemma nth_correlate_same_rev:
  assumes "i < length a" "length v = 2 * r + 1"
  shows "correlate_same a (rev v) ! i = (\<Sum>k<2 * r + 1. zget a (int i + int r - int k) * v ! k)"
proof -
  let ?n = "2 * r + 1"
  have d: "?n div 2 = r" by simp
  have "correlate_same a (rev v) ! i
        = (\<Sum>j<?n. zget a (int i + int j - int r) * rev v ! j)"
    unfolding nth_correlate_same [OF assms(1)] length_rev assms(2) d ..
  also have "\<dots> = (\<Sum>j<?n. zget a (int i + int r - int (?n - Suc j)) * v ! (?n - Suc j))"
  proof (rule sum.cong [OF refl])
    fix j assume "j \<in> {..<?n}"
    then have j: "j < ?n" by simp
    have 1: "rev v ! j = v ! (?n - Suc j)"
      using j assms(2) by (simp add: rev_nth)
    have 2: "int i + int j - int r = int i + int r - int (?n - Suc j)"
      using j by linarith
    show "zget a (int i + int j - int r) * rev v ! j
        = zget a (int i + int r - int (?n - Suc j)) * v ! (?n - Suc j)"
      unfolding 1 2 ..
  qed
  also have "\<dots> = (\<Sum>k<?n. zget a (int i + int r - int k) * v ! k)"
    by (rule sum.nat_diff_reindex)
  finally show ?thesis .
qed

lemma np_convolve_same_long:
  assumes "length v \<le> length a" "v \<noteq> []"
  shows "np_convolve_same a v = Inr (correlate_same a (rev v))"
  using assms by (auto simp: np_convolve_same_def)

lemma np_convolve_same_short:
  assumes "length a < length v" "a \<noteq> []"
  shows "np_convolve_same a v = Inr (correlate_same v (rev a))"
  using assms by (auto simp: np_convolve_same_def)

lemma np_convolve_same_length:
  assumes "a \<noteq> []" "v \<noteq> []"
  shows "\<exists>out. np_convolve_same a v = Inr out \<and> length out = max (length a) (length v)"
proof (cases "length a < length v")
  case True
  then show ?thesis using np_convolve_same_short [OF True assms(1)] by simp
next
  case False
  then show ?thesis using np_convolve_same_long [of v a] assms(2) by simp
qed

lemma np_convolve_same_out:
  "a \<noteq> [] \<Longrightarrow> v \<noteq> [] \<Longrightarrow> np_convolve_same a v = Inr (convolve_out a v)"
  by (auto simp: np_convolve_same_def convolve_out_def)

lemma length_convolve_out: "length (convolve_out a v) = max (length a) (length v)"
  by (auto simp: convolve_out_def)

lemma sequence_err_map_Inr: "sequence_err (map (\<lambda>j. Inr (g j)) xs) = Inr (map g xs)"
  by (induction xs) auto

lemma map_cong_upt: "(\<And>j. j < n \<Longrightarrow> f j = g j) \<Longrightarrow> map f [0..<n] = map g [0..<n]"
  by simp

lemma length_line0: "length (line0 f j k) = length f"
  by (simp add: line0_def)

lemma length_line1: "is_arr3 h w c f \<Longrightarrow> i < h \<Longrightarrow> length (line1 f i k) = w"
  by (simp add: line1_def is_arr3_nth)

lemma blur_axis0_out:
  assumes f: "is_arr3 h w c f" and pos: "0 < h" "0 < w" "0 < c" and wt: "weights \<noteq> []"
  shows "blur_axis0 weights f
         = Inr (tab3 (max h (length weights)) w c (\<lambda>i j k. convolve_out (line0 f j k) weights ! i))"
proof -
  have w: "ncols f = w" and c: "nchan f = c" and h: "length f = h"
    using f pos by (simp_all add: ncols_arr3 nchan_arr3 is_arr3_length)
  have ne: "\<And>j k. line0 f j k \<noteq> []"
    using h pos(1) length_line0 [of f] by (metis length_0_conv less_nat_zero_code)
  have line: "\<And>j k. np_convolve_same (line0 f j k) weights = Inr (convolve_out (line0 f j k) weights)"
    by (rule np_convolve_same_out [OF ne wt])
  have inner: "\<And>j. sequence_err (map (\<lambda>k. np_convolve_same (line0 f j k) weights) [0..<c])
               = Inr (map (\<lambda>k. convolve_out (line0 f j k) weights) [0..<c])"
    unfolding line by (rule sequence_err_map_Inr)
  have outer: "sequence_err (map (\<lambda>j. sequence_err
                 (map (\<lambda>k. np_convolve_same (line0 f j k) weights) [0..<c])) [0..<w])
               = Inr (map (\<lambda>j. map (\<lambda>k. convolve_out (line0 f j k) weights) [0..<c]) [0..<w])"
    unfolding inner by (rule sequence_err_map_Inr)
  have len: "length (convolve_out (line0 f 0 0) weights) = max h (length weights)"
    by (simp add: length_convolve_out length_line0 h)
  have cells: "tab3 (max h (length weights)) w c (\<lambda>i j k.
        map (\<lambda>j. map (\<lambda>k. convolve_out (line0 f j k) weights) [0..<c]) [0..<w] ! j ! k ! i)
      = tab3 (max h (length weights)) w c (\<lambda>i j k. convolve_out (line0 f j k) weights ! i)"
    by (rule tab3_cong) simp
  show ?thesis
    using pos
    apply (simp only: blur_axis0_def w c)
    apply (simp only: outer)
    apply (simp only: line ebind_Inr len cells)
    apply simp
    done
qed

lemma blur_axis1_out:
  assumes f: "is_arr3 h w c f" and pos: "0 < h" "0 < w" "0 < c" and wt: "weights \<noteq> []"
  shows "blur_axis1 weights f
         = Inr (tab3 h (max w (length weights)) c (\<lambda>i j k. convolve_out (line1 f i k) weights ! j))"
proof -
  have w: "nrows f = h" and c: "nchan f = c" and h: "length f = h"
    using f pos by (simp_all add: nrows_arr3 nchan_arr3 is_arr3_length)
  have ne: "\<And>i k. i < h \<Longrightarrow> line1 f i k \<noteq> []"
    using length_line1 [OF f] pos(2) by (metis length_0_conv less_nat_zero_code)
  have line: "\<And>i k. i < h \<Longrightarrow>
      np_convolve_same (line1 f i k) weights = Inr (convolve_out (line1 f i k) weights)"
    by (rule np_convolve_same_out [OF ne wt])
  have inner: "\<And>i. i < h \<Longrightarrow> sequence_err (map (\<lambda>k. np_convolve_same (line1 f i k) weights) [0..<c])
               = Inr (map (\<lambda>k. convolve_out (line1 f i k) weights) [0..<c])"
    by (simp only: line sequence_err_map_Inr)
  have "map (\<lambda>i. sequence_err (map (\<lambda>k. np_convolve_same (line1 f i k) weights) [0..<c])) [0..<h]
        = map (\<lambda>i. Inr (map (\<lambda>k. convolve_out (line1 f i k) weights) [0..<c])) [0..<h]"
    by (rule map_cong_upt) (rule inner)
  then have outer: "sequence_err (map (\<lambda>i. sequence_err
                 (map (\<lambda>k. np_convolve_same (line1 f i k) weights) [0..<c])) [0..<h])
               = Inr (map (\<lambda>i. map (\<lambda>k. convolve_out (line1 f i k) weights) [0..<c]) [0..<h])"
    by (simp only: sequence_err_map_Inr)
  have len: "length (convolve_out (line1 f 0 0) weights) = max w (length weights)"
    by (simp add: length_convolve_out length_line1 [OF f pos(1)])
  have cells: "tab3 h (max w (length weights)) c (\<lambda>i j k.
        map (\<lambda>i. map (\<lambda>k. convolve_out (line1 f i k) weights) [0..<c]) [0..<h] ! i ! k ! j)
      = tab3 h (max w (length weights)) c (\<lambda>i j k. convolve_out (line1 f i k) weights ! j)"
    by (rule tab3_cong) simp
  show ?thesis
    using pos
    apply (simp only: blur_axis1_def w c)
    apply (simp only: outer)
    apply (simp only: line [OF pos(1)] ebind_Inr len cells)
    apply simp
    done
qed

lemma gaussian_weights_ne: "gaussian_weights sigma \<noteq> []"
  using length_gaussian_weights [of sigma] by auto

lemma gaussian_blur_out:
  assumes f: "is_arr3 h w c f" and pos: "0 < h" "0 < w" "0 < c" and s: "0 < sigma"
  shows "\<exists>g. gaussian_blur f sigma = Inr g
          \<and> is_arr3 (max h (2 * gaussian_radius sigma + 1)) (max w (2 * gaussian_radius sigma + 1)) c g"
proof -
  let ?W = "gaussian_weights sigma"
  let ?K = "2 * gaussian_radius sigma + 1"
  let ?b = "tab3 (max h ?K) w c (\<lambda>i j k. convolve_out (line0 f j k) ?W ! i)"
  have K: "length ?W = ?K" by (rule length_gaussian_weights)
  have 0: "blur_axis0 ?W f = Inr ?b"
    using blur_axis0_out [OF f pos gaussian_weights_ne] K by simp
  have 1: "blur_axis1 ?W ?b
           = Inr (tab3 (max h ?K) (max w ?K) c (\<lambda>i j k. convolve_out (line1 ?b i k) ?W ! j))"
    using blur_axis1_out [OF is_arr3_tab3 _ pos(2,3) gaussian_weights_ne, of "max h ?K"] K pos(1)
    by (simp add: less_max_iff_disj)
  show ?thesis
    unfolding gaussian_blur_def Let_def 0 ebind_Inr 1
    using s by simp
qed

lemma zget_line0:
  assumes "is_arr3 h w c f" "0 < h" "j < w"
  shows "zget (line0 f j k) y = zget3 f y (int j) k"
proof (cases "0 \<le> y \<and> y < int h")
  case True
  then have "nat y < length f"
    using assms by (simp add: is_arr3_length nat_less_iff)
  then show ?thesis
    using True assms
    by (simp add: zget_def zget3_def line0_def nrows_arr3 ncols_arr3 is_arr3_length)
next
  case False
  then show ?thesis
    using assms
    by (auto simp: zget_def zget3_def line0_def nrows_arr3 ncols_arr3 is_arr3_length)
qed

lemma zget_line1:
  assumes "is_arr3 h w c b" "i < h" "k < c"
  shows "zget (line1 b i k) x = (if 0 \<le> x \<and> x < int w then b ! i ! nat x ! k else 0)"
proof (cases "0 \<le> x \<and> x < int w")
  case True
  then have "nat x < length (b ! i)"
    using assms by (simp add: is_arr3_nth nat_less_iff)
  then show ?thesis
    using True assms by (simp add: zget_def line1_def is_arr3_nth)
next
  case False
  then show ?thesis
    using assms by (auto simp: zget_def line1_def is_arr3_nth)
qed

lemma zget3_out_x: "\<not> (0 \<le> x \<and> x < int (ncols f)) \<Longrightarrow> zget3 f y x k = 0"
  by (auto simp: zget3_def)

lemma two_pass_cell:
  assumes f: "is_arr3 h w c f" and len: "length W = 2 * r + 1"
    and big: "2 * r + 1 \<le> h" "2 * r + 1 \<le> w" and ijk: "i < h" "j < w" "k < c"
  shows "convolve_out
           (line1 (tab3 h w c (\<lambda>i j k. convolve_out (line0 f j k) W ! i)) i k) W ! j
         = (\<Sum>a<2 * r + 1. \<Sum>b<2 * r + 1.
              (W ! a * W ! b) * zget3 f (int i + int r - int a) (int j + int r - int b) k)"
proof -
  let ?n = "2 * r + 1"
  let ?B = "tab3 h w c (\<lambda>i j k. convolve_out (line0 f j k) W ! i)"
  let ?Z = "\<lambda>a b. zget3 f (int i + int r - int a) (int j + int r - int b) k"
  have hpos: "0 < h" and wpos: "0 < w" using big by simp_all
  have w: "ncols f = w" using f hpos by (simp add: ncols_arr3)
  have pass0: "\<And>i' j'. i' < h \<Longrightarrow> j' < w \<Longrightarrow>
      convolve_out (line0 f j' k) W ! i'
      = (\<Sum>a<?n. zget3 f (int i' + int r - int a) (int j') k * W ! a)"
  proof -
    fix i' j' assume b: "i' < h" "j' < w"
    have "convolve_out (line0 f j' k) W = correlate_same (line0 f j' k) (rev W)"
      using big len f by (simp add: convolve_out_def length_line0 is_arr3_length)
    then show "convolve_out (line0 f j' k) W ! i'
      = (\<Sum>a<?n. zget3 f (int i' + int r - int a) (int j') k * W ! a)"
      using nth_correlate_same_rev [of i' "line0 f j' k" W r] b len f
      by (simp add: length_line0 is_arr3_length zget_line0 [OF f hpos b(2)])
  qed
  have col: "\<And>b. zget (line1 ?B i k) (int j + int r - int b) = (\<Sum>a<?n. ?Z a b * W ! a)"
  proof -
    fix b
    show "zget (line1 ?B i k) (int j + int r - int b) = (\<Sum>a<?n. ?Z a b * W ! a)"
    proof (cases "0 \<le> int j + int r - int b \<and> int j + int r - int b < int w")
      case True
      then have n: "nat (int j + int r - int b) < w" by linarith
      have "zget (line1 ?B i k) (int j + int r - int b) = ?B ! i ! nat (int j + int r - int b) ! k"
        using True by (simp add: zget_line1 [OF is_arr3_tab3 ijk(1,3)])
      also have "\<dots> = convolve_out (line0 f (nat (int j + int r - int b)) k) W ! i"
        using n ijk by simp
      also have "\<dots> = (\<Sum>a<?n. zget3 f (int i + int r - int a) (int (nat (int j + int r - int b))) k * W ! a)"
        by (rule pass0 [OF ijk(1) n])
      also have "int (nat (int j + int r - int b)) = int j + int r - int b"
        using True by simp
      finally show ?thesis .
    next
      case False
      then have "\<And>a. ?Z a b = 0"
        using zget3_out_x [of "int j + int r - int b" f] w by simp
      moreover have "zget (line1 ?B i k) (int j + int r - int b) = 0"
        by (simp only: zget_line1 [OF is_arr3_tab3 ijk(1,3)] False if_False)
      ultimately show ?thesis by simp
    qed
  qed
  have "convolve_out (line1 ?B i k) W = correlate_same (line1 ?B i k) (rev W)"
    using big len ijk by (simp add: convolve_out_def length_line1 [OF is_arr3_tab3])
  then have "convolve_out (line1 ?B i k) W ! j
      = (\<Sum>b<?n. zget (line1 ?B i k) (int j + int r - int b) * W ! b)"
    using nth_correlate_same_rev [of j "line1 ?B i k" W r] ijk len
    by (simp add: length_line1 [OF is_arr3_tab3])
  also have "\<dots> = (\<Sum>b<?n. \<Sum>a<?n. (W ! a * W ! b) * ?Z a b)"
  proof (rule sum.cong [OF refl])
    fix b assume "b \<in> {..<?n}"
    show "zget (line1 ?B i k) (int j + int r - int b) * W ! b = (\<Sum>a<?n. (W ! a * W ! b) * ?Z a b)"
      unfolding col sum_distrib_right
      by (rule sum.cong [OF refl]) (simp add: mult_ac)
  qed
  also have "\<dots> = (\<Sum>a<?n. \<Sum>b<?n. (W ! a * W ! b) * ?Z a b)"
    by (rule sum.swap)
  finally show ?thesis .
qed

lemma spec_conv2d_direct_sum:
  assumes f: "is_arr3 h w c f" and pos: "0 < h" "0 < w" and len: "length W = 2 * r + 1"
  shows "spec_conv2d_direct W f = tab3 h w c (\<lambda>i j k. \<Sum>a<2 * r + 1. \<Sum>b<2 * r + 1.
              (W ! a * W ! b) * zget3 f (int i + int r - int a) (int j + int r - int b) k)"
proof -
  have d: "(2 * r + 1) div 2 = r" by simp
  show ?thesis
    unfolding spec_conv2d_direct_def Let_def len d sum_list_upt
      nrows_arr3 [OF f] ncols_arr3 [OF f pos(1)] nchan_arr3 [OF f pos] ..
qed

lemma gaussian_blur_cells:
  assumes f: "is_arr3 h w c f" and pos: "0 < h" "0 < w" "0 < c" and s: "0 < sigma"
  shows "gaussian_blur f sigma
     = Inr (tab3 (max h (length (gaussian_weights sigma))) (max w (length (gaussian_weights sigma))) c
         (\<lambda>i j k. convolve_out
            (line1 (tab3 (max h (length (gaussian_weights sigma))) w c
                      (\<lambda>i j k. convolve_out (line0 f j k) (gaussian_weights sigma) ! i)) i k)
            (gaussian_weights sigma) ! j))"
proof -
  let ?W = "gaussian_weights sigma"
  let ?b = "tab3 (max h (length ?W)) w c (\<lambda>i j k. convolve_out (line0 f j k) ?W ! i)"
  have 0: "blur_axis0 ?W f = Inr ?b"
    by (rule blur_axis0_out [OF f pos gaussian_weights_ne])
  have 1: "blur_axis1 ?W ?b
           = Inr (tab3 (max h (length ?W)) (max w (length ?W)) c
                   (\<lambda>i j k. convolve_out (line1 ?b i k) ?W ! j))"
    using pos(1) by (intro blur_axis1_out [OF is_arr3_tab3 _ pos(2,3) gaussian_weights_ne])
      (simp add: less_max_iff_disj)
  show ?thesis
    unfolding gaussian_blur_def Let_def 0 ebind_Inr 1
    using s by simp
qed



section \<open>The velocity field\<close>

lemma gaussian_radius_1: "gaussian_radius 1 = 3"
  by (simp add: gaussian_radius_def)

lemma length_gradient1 [simp]: "length (gradient1 f) = length f"
  by (simp add: gradient1_def Let_def)

lemma is_arr2_map_gradient1: "is_arr2 h w a \<Longrightarrow> is_arr2 h w (map gradient1 a)"
  by (simp add: is_arr2_def list_all_iff)

lemma is_arr2_map_map: "is_arr2 h w a \<Longrightarrow> is_arr2 h w (map (map g) a)"
  by (simp add: is_arr2_def list_all_iff)

lemma nth_map_map: "is_arr2 h w a \<Longrightarrow> i < h \<Longrightarrow> j < w \<Longrightarrow> map (map g) a ! i ! j = g (a ! i ! j)"
  by (simp add: is_arr2_length is_arr2_nth)

lemma stack2_arr:
  assumes "is_arr2 h w u" "is_arr2 h w v" "0 < h"
  shows "stack2 u v = Inr (tab3 h w 2 (\<lambda>i j k. if k = 0 then u ! i ! j else v ! i ! j))"
  using assms by (simp add: stack2_def nrows_arr2 ncols_arr2)

lemma velocity_field_small:
  assumes "n \<le> 1"
  shows "velocity_field n t s = Inl ValueError"
proof -
  consider "n < 0" | "n = 0" | "n = 1" using assms by linarith
  then show ?thesis
  proof cases
    case 1
    then show ?thesis by (simp add: velocity_field_def build_grid_def linspace_def)
  next
    case 2
    then show ?thesis
      by (simp add: velocity_field_def build_grid_values stream_function_def broadcast2_def
          tab2_def nrows_def ncols_def np_gradient_def)
  next
    case 3
    then show ?thesis
      by (simp add: velocity_field_def build_grid_values stream_function_def broadcast2_def
          tab2_def nrows_def ncols_def np_gradient_def)
  qed
qed

lemma velocity_field_unfold:
  assumes n: "2 \<le> n"
  shows "\<exists>dy dx. is_arr2 (nat n) (nat n) dy \<and> is_arr2 (nat n) (nat n) dx
            \<and> velocity_field n t s
              = gaussian_blur (tab3 (nat n) (nat n) 2 (\<lambda>i j k.
                    if k = 0 then dy ! i ! j * s * real_of_int n
                    else - (dx ! i ! j) * s * real_of_int n)) 1"
proof -
  let ?m = "nat n"
  let ?x = "tab2 ?m ?m (\<lambda>i j. real i / real_of_int n)"
  let ?y = "tab2 ?m ?m (\<lambda>i j. real j / real_of_int n)"
  let ?psi = "tab2 ?m ?m (\<lambda>i j. stream_function1 (?x ! i ! j) (?y ! i ! j) t)"
  let ?dy = "tab2 ?m ?m (\<lambda>i j. gradient1 (map (\<lambda>r. r ! j) ?psi) ! i)"
  let ?dx = "map gradient1 ?psi"
  let ?u = "map (map (\<lambda>d. d * s * real_of_int n)) ?dy"
  let ?v = "map (map (\<lambda>d. - d * s * real_of_int n)) ?dx"
  have m: "2 \<le> ?m" "0 < ?m" using n by simp_all
  have g: "build_grid n = Inr (?x, ?y)"
    using n by (intro build_grid_values) simp
  have p: "stream_function ?x ?y t = Inr ?psi"
    unfolding stream_function_def
    by (rule broadcast2_same [OF is_arr2_tab2 is_arr2_tab2 m(2)])
  have rc: "nrows ?psi = ?m" "ncols ?psi = ?m"
    using m(2) by (simp_all add: nrows_arr2 [OF is_arr2_tab2] ncols_arr2 [OF is_arr2_tab2])
  have g0: "np_gradient 0 ?psi = Inr ?dy"
    unfolding np_gradient_def rc using m(1) by simp
  have g1: "np_gradient 1 ?psi = Inr ?dx"
    unfolding np_gradient_def rc using m(1) by simp
  have dy: "is_arr2 ?m ?m ?dy" by (rule is_arr2_tab2)
  have dx: "is_arr2 ?m ?m ?dx" by (rule is_arr2_map_gradient1 [OF is_arr2_tab2])
  have st: "stack2 ?u ?v = Inr (tab3 ?m ?m 2 (\<lambda>i j k. if k = 0 then ?u ! i ! j else ?v ! i ! j))"
    by (rule stack2_arr [OF is_arr2_map_map [OF dy] is_arr2_map_map [OF dx] m(2)])
  have cells: "tab3 ?m ?m 2 (\<lambda>i j k. if k = 0 then ?u ! i ! j else ?v ! i ! j)
      = tab3 ?m ?m 2 (\<lambda>i j k. if k = 0 then ?dy ! i ! j * s * real_of_int n
                                else - (?dx ! i ! j) * s * real_of_int n)"
    by (rule tab3_cong) (simp only: nth_map_map [OF dy] nth_map_map [OF dx])
  have "velocity_field n t s = gaussian_blur (tab3 ?m ?m 2 (\<lambda>i j k.
          if k = 0 then ?dy ! i ! j * s * real_of_int n else - (?dx ! i ! j) * s * real_of_int n)) 1"
    unfolding velocity_field_def g ebind_Inr prod.case p g0 g1 Let_def st cells ..
  with dy dx show ?thesis by blast
qed

lemma velocity_field_shape:
  assumes n: "2 \<le> n"
  shows "\<exists>v. velocity_field n t s = Inr v \<and> is_arr3 (max (nat n) 7) (max (nat n) 7) 2 v"
proof -
  obtain dy dx where "velocity_field n t s
      = gaussian_blur (tab3 (nat n) (nat n) 2 (\<lambda>i j k.
            if k = 0 then dy ! i ! j * s * real_of_int n else - (dx ! i ! j) * s * real_of_int n)) 1"
    using velocity_field_unfold [OF n] by blast
  moreover have "0 < nat n" using n by simp
  ultimately show ?thesis
    using gaussian_blur_out [OF is_arr3_tab3, of "nat n" "nat n" 2 1]
    by (simp add: gaussian_radius_1)
qed

section \<open>The dye stays between its bounds\<close>

lemma all_between_nth:
  "all_between lo hi a \<Longrightarrow> is_arr3 h w c a \<Longrightarrow> i < h \<Longrightarrow> j < w \<Longrightarrow> k < c \<Longrightarrow>
   lo \<le> a ! i ! j ! k \<and> a ! i ! j ! k \<le> hi"
  by (auto simp: all_between_def is_arr3_def list_all_length)

lemma all_between_tab3:
  "(\<And>i j k. i < h \<Longrightarrow> j < w \<Longrightarrow> k < c \<Longrightarrow> lo \<le> g i j k \<and> g i j k \<le> hi) \<Longrightarrow>
   all_between lo hi (tab3 h w c g)"
  by (simp add: all_between_def tab3_def list_all_iff)

lemma all_between_clip:
  "all_between 0 255 (map (map (map (\<lambda>v. np_clip v 0 255))) a)"
  by (simp add: all_between_def list_all_iff np_clip_def)

lemma is_arr3_map3: "is_arr3 h w c a \<Longrightarrow> is_arr3 h w c (map (map (map g)) a)"
  by (simp add: is_arr3_def list_all_iff)

lemma clip_id_between:
  assumes "all_between 0 255 a"
  shows "map (map (map (\<lambda>v. np_clip v 0 255))) a = a"
proof -
  have "\<And>v. 0 \<le> v \<and> v \<le> 255 \<Longrightarrow> np_clip v 0 255 = (v::real)"
    by (simp add: np_clip_def)
  then show ?thesis
    using assms by (auto simp: all_between_def list_all_iff intro!: map_idI)
qed

lemma broadcast3_chan1:
  assumes a: "is_arr3 n n 3 a" and b: "is_arr3 n n 1 b" and n: "0 < n"
  shows "\<exists>g. broadcast3 f a b = Inr (tab3 n n 3 g)"
proof -
  have "broadcast3 f a b = Inr (tab3 n n 3 (\<lambda>i j k.
          f (a ! bidx n i ! bidx n j ! bidx 3 k) (b ! bidx n i ! bidx n j ! bidx 1 k)))"
    using assms
    by (simp add: broadcast3_def nrows_arr3 ncols_arr3 nchan_arr3 bshape_def)
  then show ?thesis by blast
qed

lemma create_initial_dye_ok:
  assumes "0 \<le> n"
  shows "\<exists>d. create_initial_dye noise n = Inr d \<and> is_arr3 (nat n) (nat n) 3 d \<and> all_between 0 255 d"
proof (cases "n = 0")
  case True
  have "create_initial_dye noise 0 = Inr []"
    by (simp add: create_initial_dye_def tab3_def tab2_def broadcast3_def nrows_def ncols_def
        nchan_def linspace_def meshgrid_xy_def)
  then show ?thesis
    using True by (simp add: is_arr3_def all_between_def)
next
  case False
  let ?m = "nat n"
  have m: "0 < ?m" using assms False by simp
  obtain axis where ax: "linspace (- 1) 1 n True = Inr axis" "length axis = ?m"
    using assms by (simp add: linspace_def Let_def)
  let ?dye = "tab3 ?m ?m 3 (\<lambda>i j c. [30, 90, 180] ! c + noise n i j c)"
  have b1: "broadcast3 (\<lambda>d t. d + t) (tab3 ?m ?m 3 (\<lambda>i j c. [30, 90, 180] ! c)) (tab3 ?m ?m 3 (noise n))
            = Inr ?dye"
    by (simp add: broadcast3_same [OF is_arr3_tab3 is_arr3_tab3 m m] cong: tab3_cong)
  define vig where "vig = map (map (\<lambda>v. [v]))
     (map (map (\<lambda>v. np_clip (1 - 0.8 * v) 0.2 1))
       (tab2 (nrows (tab2 ?m ?m (\<lambda>i j. axis ! j))) (ncols (tab2 ?m ?m (\<lambda>i j. axis ! j)))
          (\<lambda>i j. sqrt ((tab2 ?m ?m (\<lambda>i j. axis ! j) ! i ! j)\<^sup>2
                       + (tab2 ?m ?m (\<lambda>i j. axis ! i) ! i ! j)\<^sup>2))))"
  have rc: "nrows (tab2 ?m ?m (\<lambda>i j. axis ! j)) = ?m" "ncols (tab2 ?m ?m (\<lambda>i j. axis ! j)) = ?m"
    using m by (simp_all add: nrows_arr2 [OF is_arr2_tab2] ncols_arr2 [OF is_arr2_tab2])
  have vig: "is_arr3 ?m ?m 1 vig"
    unfolding vig_def rc by (simp add: is_arr3_def tab2_def list_all_iff)
  obtain g where b2: "broadcast3 (\<lambda>d v. d * v) ?dye vig = Inr (tab3 ?m ?m 3 g)"
    using broadcast3_chan1 [OF is_arr3_tab3 vig m] by blast
  have "create_initial_dye noise n = Inr (map (map (map (\<lambda>v. np_clip v 0 255))) (tab3 ?m ?m 3 g))"
    using assms
    unfolding create_initial_dye_def Let_def b1 ebind_Inr ax meshgrid_xy_def prod.case
      vig_def [symmetric] b2
    by simp
  then show ?thesis
    using all_between_clip is_arr3_map3 [OF is_arr3_tab3] by auto
qed

lemma create_initial_dye_neg: "n < 0 \<Longrightarrow> create_initial_dye noise n = Inl ValueError"
  by (simp add: create_initial_dye_def)

lemma convex_between:
  fixes a b f lo hi :: real
  assumes "lo \<le> a" "a \<le> hi" "lo \<le> b" "b \<le> hi" "0 \<le> f" "f \<le> 1"
  shows "lo \<le> a * (1 - f) + b * f \<and> a * (1 - f) + b * f \<le> hi"
proof -
  have 1: "lo * (1 - f) \<le> a * (1 - f)" "a * (1 - f) \<le> hi * (1 - f)"
    using assms by (simp_all add: mult_right_mono)
  have 2: "lo * f \<le> b * f" "b * f \<le> hi * f"
    using assms by (simp_all add: mult_right_mono)
  have "lo * (1 - f) + lo * f = lo" "hi * (1 - f) + hi * f = hi"
    by (simp_all add: algebra_simps)
  then show ?thesis using 1 2 by linarith
qed

lemma floor_frac_range:
  fixes x :: real
  shows "0 \<le> x - of_int \<lfloor>x\<rfloor> \<and> x - of_int \<lfloor>x\<rfloor> \<le> 1"
  by linarith

lemma bilinear_at_between:
  assumes f: "is_arr3 h w c field" and pos: "0 < h" "0 < w"
    and b: "all_between lo hi field"
  shows "\<exists>v. bilinear_at field x y = Inr v \<and> length v = c
             \<and> (\<forall>k<c. lo \<le> v ! k \<and> v ! k \<le> hi)"
proof -
  let ?x = "np_clip x 0 (real_of_int (int w - 1))"
  let ?y = "np_clip y 0 (real_of_int (int h - 1))"
  have xr: "0 \<le> ?x" "?x \<le> real_of_int (int w - 1)" and yr: "0 \<le> ?y" "?y \<le> real_of_int (int h - 1)"
    using pos by (simp_all add: np_clip_def)
  have fx: "0 \<le> \<lfloor>?x\<rfloor>" "\<lfloor>?x\<rfloor> \<le> int w - 1" and fy: "0 \<le> \<lfloor>?y\<rfloor>" "\<lfloor>?y\<rfloor> \<le> int h - 1"
    using xr yr by (simp_all add: le_floor_iff floor_le_iff) linarith+
  have cx: "np_clip \<lfloor>?x\<rfloor> 0 (int w - 1) = \<lfloor>?x\<rfloor>" and cy: "np_clip \<lfloor>?y\<rfloor> 0 (int h - 1) = \<lfloor>?y\<rfloor>"
    using fx fy by (simp_all add: np_clip_def)
  define x0 where "x0 = nat \<lfloor>?x\<rfloor>"
  define y0 where "y0 = nat \<lfloor>?y\<rfloor>"
  define x1 where "x1 = nat (np_clip (\<lfloor>?x\<rfloor> + 1) 0 (int w - 1))"
  define y1 where "y1 = nat (np_clip (\<lfloor>?y\<rfloor> + 1) 0 (int h - 1))"
  define gx where "gx = ?x - of_int \<lfloor>?x\<rfloor>"
  define gy where "gy = ?y - of_int \<lfloor>?y\<rfloor>"
  have r: "x0 < w" "x1 < w" "y0 < h" "y1 < h"
    using fx fy pos by (simp_all add: x0_def x1_def y0_def y1_def np_clip_def)
  have g: "0 \<le> gx" "gx \<le> 1" "0 \<le> gy" "gy \<le> 1"
    unfolding gx_def gy_def using floor_frac_range by blast+
  define v where "v = map2 (\<lambda>t b. t * (1 - gy) + b * gy)
           (map2 (\<lambda>a b. a * (1 - gx) + b * gx) (field ! y0 ! x0) (field ! y0 ! x1))
           (map2 (\<lambda>a b. a * (1 - gx) + b * gx) (field ! y1 ! x0) (field ! y1 ! x1))"
  have "bilinear_at field ?x ?y = Inr v"
    unfolding bilinear_at_unfold [OF f pos] Let_def cx cy
      v_def x0_def y0_def x1_def y1_def gx_def gy_def ..
  then have eq: "bilinear_at field x y = Inr v"
    using bilinear_at_clamp [OF f pos, of x y] by simp
  have len: "length (field ! y0 ! x0) = c" "length (field ! y0 ! x1) = c"
      "length (field ! y1 ! x0) = c" "length (field ! y1 ! x1) = c"
    using is_arr3_nth2 [OF f] r by simp_all
  have lv: "length v = c" by (simp add: v_def len)
  have "\<forall>k<c. lo \<le> v ! k \<and> v ! k \<le> hi"
  proof (intro allI impI)
    fix k assume k: "k < c"
    note e = all_between_nth [OF b f _ _ k]
    have t: "lo \<le> field ! y0 ! x0 ! k * (1 - gx) + field ! y0 ! x1 ! k * gx
             \<and> field ! y0 ! x0 ! k * (1 - gx) + field ! y0 ! x1 ! k * gx \<le> hi"
      using e [OF r(3) r(1)] e [OF r(3) r(2)] g by (intro convex_between) simp_all
    have u: "lo \<le> field ! y1 ! x0 ! k * (1 - gx) + field ! y1 ! x1 ! k * gx
             \<and> field ! y1 ! x0 ! k * (1 - gx) + field ! y1 ! x1 ! k * gx \<le> hi"
      using e [OF r(4) r(1)] e [OF r(4) r(2)] g by (intro convex_between) simp_all
    have "v ! k = (field ! y0 ! x0 ! k * (1 - gx) + field ! y0 ! x1 ! k * gx) * (1 - gy)
                + (field ! y1 ! x0 ! k * (1 - gx) + field ! y1 ! x1 ! k * gx) * gy"
      using k by (simp add: v_def len)
    then show "lo \<le> v ! k \<and> v ! k \<le> hi"
      using convex_between [of lo _ hi _ gy] t u g by simp
  qed
  with eq lv show ?thesis by blast
qed

lemma is_arr3_tab2_cells:
  "(\<And>i j. i < h \<Longrightarrow> j < w \<Longrightarrow> length (g i j) = c) \<Longrightarrow> is_arr3 h w c (tab2 h w g)"
  by (simp add: is_arr3_def tab2_def list_all_iff)

lemma all_between_tab2_cells:
  "(\<And>i j. i < h \<Longrightarrow> j < w \<Longrightarrow> list_all (\<lambda>v. lo \<le> v \<and> v \<le> hi) (g i j)) \<Longrightarrow>
   all_between lo hi (tab2 h w g)"
  by (simp add: all_between_def tab2_def list_all_iff)

lemma advect_between:
  assumes f: "is_arr3 h w c field" and v: "is_arr3 h w 2 velocity" and pos: "0 < h" "0 < w"
    and b: "all_between lo hi field"
  shows "\<exists>d. advect field velocity delta_t = Inr d \<and> is_arr3 h w c d \<and> all_between lo hi d"
proof -
  let ?X = "tab2 h w (\<lambda>i j. np_clip (real j - delta_t * velocity ! i ! j ! 0) 0 (real_of_int (int w - 1)))"
  let ?Y = "tab2 h w (\<lambda>i j. np_clip (real i - delta_t * velocity ! i ! j ! 1) 0 (real_of_int (int h - 1)))"
  define g where "g = (\<lambda>i j. projr (bilinear_at field (?X ! i ! j) (?Y ! i ! j)))"
  have cell: "\<And>i j. bilinear_at field (?X ! i ! j) (?Y ! i ! j) = Inr (g i j)
                \<and> length (g i j) = c \<and> (\<forall>k<c. lo \<le> g i j ! k \<and> g i j ! k \<le> hi)"
  proof -
    fix i j
    obtain u where "bilinear_at field (?X ! i ! j) (?Y ! i ! j) = Inr u" "length u = c"
        "\<forall>k<c. lo \<le> u ! k \<and> u ! k \<le> hi"
      using bilinear_at_between [OF f pos b] by blast
    then show "bilinear_at field (?X ! i ! j) (?Y ! i ! j) = Inr (g i j)
                \<and> length (g i j) = c \<and> (\<forall>k<c. lo \<le> g i j ! k \<and> g i j ! k \<le> hi)"
      by (simp add: g_def)
  qed
  have "advect field velocity delta_t = Inr (tab2 h w g)"
    unfolding advect_unfold [OF f v pos]
    by (rule bilinear_sample_cells [OF is_arr2_tab2 is_arr2_tab2 pos(1)])
       (rule cell [THEN conjunct1])
  moreover have "is_arr3 h w c (tab2 h w g)"
    by (rule is_arr3_tab2_cells) (simp add: cell)
  moreover have "all_between lo hi (tab2 h w g)"
    by (rule all_between_tab2_cells) (simp add: list_all_length cell)
  ultimately show ?thesis by blast
qed

lemma dissipate_cells:
  assumes d: "is_arr3 h w c dye" and b: "is_arr3 h w c base" and pos: "0 < h" "0 < w"
  shows "dissipate dye base
         = Inr (tab3 h w c (\<lambda>i j k. 0.995 * dye ! i ! j ! k + 0.005 * base ! i ! j ! k))"
  unfolding dissipate_def by (rule broadcast3_same [OF d b pos])

lemma dissipate_between:
  assumes d: "is_arr3 h w c dye" and b: "is_arr3 h w c base" and pos: "0 < h" "0 < w"
    and bd: "all_between lo hi dye" and bb: "all_between lo hi base"
  shows "\<exists>r. dissipate dye base = Inr r \<and> is_arr3 h w c r \<and> all_between lo hi r"
proof -
  have "all_between lo hi (tab3 h w c (\<lambda>i j k. 0.995 * dye ! i ! j ! k + 0.005 * base ! i ! j ! k))"
  proof (rule all_between_tab3)
    fix i j k assume ijk: "i < h" "j < w" "k < c"
    have "lo \<le> dye ! i ! j ! k * (1 - 0.005) + base ! i ! j ! k * 0.005
          \<and> dye ! i ! j ! k * (1 - 0.005) + base ! i ! j ! k * 0.005 \<le> hi"
      using all_between_nth [OF bd d ijk] all_between_nth [OF bb b ijk]
      by (intro convex_between) simp_all
    then show "lo \<le> 0.995 * dye ! i ! j ! k + 0.005 * base ! i ! j ! k
               \<and> 0.995 * dye ! i ! j ! k + 0.005 * base ! i ! j ! k \<le> hi"
      by (simp add: mult.commute)
  qed
  then show ?thesis
    using dissipate_cells [OF d b pos] by auto
qed

lemma sim_step_ok:
  assumes n: "7 \<le> resolution config" and s: "steps config \<noteq> 0"
    and d: "is_arr3 (nat (resolution config)) (nat (resolution config)) 3 dye"
    and b: "is_arr3 (nat (resolution config)) (nat (resolution config)) 3 base"
    and bd: "all_between 0 255 dye" and bb: "all_between 0 255 base"
  shows "\<exists>r. sim_step config base step dye = Inr r
           \<and> is_arr3 (nat (resolution config)) (nat (resolution config)) 3 r
           \<and> all_between 0 255 r"
proof -
  let ?m = "nat (resolution config)"
  let ?t = "real step / real_of_int (steps config) * 6"
  have m: "0 < ?m" "max ?m 7 = ?m" using n by simp_all
  obtain vel where vel: "velocity_field (resolution config) ?t (strength config) = Inr vel"
      "is_arr3 ?m ?m 2 vel"
    using velocity_field_shape [of "resolution config" ?t "strength config"] n m(2) by auto
  obtain a where a: "advect dye vel (dt config) = Inr a" "is_arr3 ?m ?m 3 a" "all_between 0 255 a"
    using advect_between [OF d vel(2) m(1) m(1) bd] by blast
  obtain r where "dissipate a base = Inr r" "is_arr3 ?m ?m 3 r" "all_between 0 255 r"
    using dissipate_between [OF a(2) b m(1) m(1) a(3) bb] by blast
  then show ?thesis
    unfolding sim_step_def Let_def vel(1) ebind_Inr a(1)
    using s by simp
qed

lemma advect_mismatch:
  assumes f: "is_arr3 m m c field" and v: "is_arr3 7 7 2 velocity" and m: "2 \<le> m" "m < 7"
  shows "advect field velocity delta_t = Inl ValueError"
proof -
  have h: "nrows field = m" "ncols field = m"
    using f m by (simp_all add: nrows_arr3 ncols_arr3)
  have c0: "component 0 velocity = Inr (tab2 7 7 (\<lambda>i j. velocity ! i ! j ! 0))"
    using component_arr [OF v, of 0] by simp
  have r: "nrows (tab2 m m (\<lambda>i j. map real [0..<m] ! j)) = m"
          "nrows (tab2 7 7 (\<lambda>i j. velocity ! i ! j ! 0)) = 7"
    by (simp_all add: nrows_def)
  have "broadcast2 (\<lambda>xv u. xv - delta_t * u) (tab2 m m (\<lambda>i j. map real [0..<m] ! j))
          (tab2 7 7 (\<lambda>i j. velocity ! i ! j ! 0)) = Inl ValueError"
    unfolding broadcast2_def r using m by (simp add: bshape_def)
  then show ?thesis
    unfolding advect_def Let_def h meshgrid_ij_def prod.case c0 ebind_Inr
    by simp
qed

lemma sim_step_small:
  assumes n: "resolution config < 7" and s: "steps config \<noteq> 0"
    and d: "is_arr3 (nat (resolution config)) (nat (resolution config)) c dye"
  shows "sim_step config base step dye = Inl ValueError"
proof (cases "resolution config \<le> 1")
  case True
  then show ?thesis
    unfolding sim_step_def Let_def velocity_field_small [OF True]
    using s by simp
next
  case False
  let ?m = "nat (resolution config)"
  let ?t = "real step / real_of_int (steps config) * 6"
  have m: "2 \<le> ?m" "?m < 7" "max ?m 7 = 7" using False n by simp_all
  obtain vel where vel: "velocity_field (resolution config) ?t (strength config) = Inr vel"
      "is_arr3 7 7 2 vel"
    using velocity_field_shape [of "resolution config" ?t "strength config"] False m(3) by auto
  show ?thesis
    unfolding sim_step_def Let_def vel(1) ebind_Inr advect_mismatch [OF d vel(2) m(1,2)]
    using s by simp
qed

section \<open>The simulation loop\<close>

lemma sim_loop_append:
  "sim_loop config base (xs @ ys) dye fr =
     (case sim_loop config base xs dye fr of
        Inl e \<Rightarrow> Inl e
      | Inr (d, fr') \<Rightarrow> sim_loop config base ys d fr')"
  by (induction xs arbitrary: dye fr) (auto split: sum.splits)

lemma sim_loop_snoc:
  "sim_loop config base (xs @ [s]) dye fr =
     (case sim_loop config base xs dye fr of
        Inl e \<Rightarrow> Inl e
      | Inr (d, fr') \<Rightarrow>
          (case sim_step config base s d of
             Inl e \<Rightarrow> Inl e
           | Inr d' \<Rightarrow> Inr (d', fr' @ [to_frame d'])))"
  by (simp add: sim_loop_append split: sum.splits)

lemma sim_loop_frames:
  "sim_loop config base xs dye fr = Inr (d, fr') \<Longrightarrow>
   \<exists>more. fr' = fr @ more \<and> length more = length xs"
proof (induction xs arbitrary: dye fr)
  case Nil
  then show ?case by simp
next
  case (Cons s xs)
  then obtain d1 where d1: "sim_step config base s dye = Inr d1"
      "sim_loop config base xs d1 (fr @ [to_frame d1]) = Inr (d, fr')"
    by (auto split: sum.splits)
  from Cons.IH [OF d1(2)] obtain more where "fr' = (fr @ [to_frame d1]) @ more" "length more = length xs"
    by blast
  then show ?case by simp
qed

lemma sim_loop_ok:
  assumes n: "7 \<le> resolution config" and s: "xs = [] \<or> steps config \<noteq> 0"
    and b: "is_arr3 (nat (resolution config)) (nat (resolution config)) 3 base" "all_between 0 255 base"
    and d: "is_arr3 (nat (resolution config)) (nat (resolution config)) 3 dye" "all_between 0 255 dye"
  shows "\<exists>r fr'. sim_loop config base xs dye fr = Inr (r, fr')
           \<and> is_arr3 (nat (resolution config)) (nat (resolution config)) 3 r
           \<and> all_between 0 255 r"
  using s d
proof (induction xs arbitrary: dye fr)
  case Nil
  then show ?case by simp
next
  case (Cons st xs)
  then have s0: "steps config \<noteq> 0" by simp
  obtain d1 where d1: "sim_step config base st dye = Inr d1"
      "is_arr3 (nat (resolution config)) (nat (resolution config)) 3 d1" "all_between 0 255 d1"
    using sim_step_ok [OF n s0 Cons.prems(2) b(1) Cons.prems(3) b(2)] by blast
  show ?case
    using Cons.IH [OF _ d1(2,3), of "fr @ [to_frame d1]"] s0 d1(1) by simp
qed

lemma is_arr3_to_frame: "is_arr3 h w c dye \<Longrightarrow> is_arr3 h w c (to_frame dye)"
  by (simp add: to_frame_def is_arr3_def list_all_iff)

lemma frame_values: "list_all (list_all (list_all (\<lambda>v. unat v \<le> 255))) (fr :: frame)"
proof -
  have "unat v \<le> 255" for v :: "8 word"
    using unsigned_less [of v, where ?'a = nat] by simp
  then show ?thesis by (simp add: list_all_iff)
qed

lemma sim_loop_small:
  assumes n: "resolution config < 7" and s: "steps config \<noteq> 0" and x: "xs \<noteq> []"
    and d: "is_arr3 (nat (resolution config)) (nat (resolution config)) c dye"
  shows "sim_loop config base xs dye fr = Inl ValueError"
proof -
  obtain st rest where "xs = st # rest" using x by (cases xs) auto
  then show ?thesis
    using sim_step_small [OF n s d, of base st] by simp
qed

lemma imshow_ok:
  assumes "is_arr3 h w c dye" "0 < h" "0 < w"
  shows "imshow (to_frame dye) = Inr ()"
  using nrows_arr3 [OF is_arr3_to_frame [OF assms(1)]]
    ncols_arr3 [OF is_arr3_to_frame [OF assms(1)] assms(2)] assms(2,3)
  by (simp add: imshow_def)

lemma imshow_empty:
  assumes "is_arr3 0 w c dye"
  shows "imshow (to_frame dye) = Inl ValueError"
  using nrows_arr3 [OF is_arr3_to_frame [OF assms]] by (simp add: imshow_def)

lemma live_view_cases:
  "(if v then imshow img else Inr ()) = Inr ()
   \<or> (if v then imshow img else Inr ()) = Inl ValueError"
  by (simp add: imshow_def)

lemma run_simulation_small:
  assumes n: "0 \<le> resolution config" "resolution config < 7" and s: "0 < steps config"
    and f: "fps config \<noteq> 0"
  shows "run_simulation noise config = Inl ValueError"
proof -
  obtain base where base: "create_initial_dye noise (resolution config) = Inr base"
      "is_arr3 (nat (resolution config)) (nat (resolution config)) 3 base"
    using create_initial_dye_ok [OF n(1)] by blast
  have s0: "steps config \<noteq> 0" using s by simp
  obtain k where k: "nat (steps config) = Suc k"
    using s by (cases "nat (steps config)") simp_all
  have "[0..<nat (steps config)] = 0 # [1..<Suc k]"
    unfolding k by (simp add: upt_rec)
  then have "sim_loop config base [0..<nat (steps config)] base [] = Inl ValueError"
    using sim_step_small [OF n(2) s0 base(2), of base 0] by simp
  then show ?thesis
    using f live_view_cases [of "live_view config" "to_frame base"]
    by (auto simp: run_simulation_def base(1))
qed

lemma run_simulation_fps0:
  assumes "0 \<le> resolution config" "fps config = 0"
  shows "run_simulation noise config = Inl ZeroDivisionError"
proof -
  obtain base where "create_initial_dye noise (resolution config) = Inr base"
    using create_initial_dye_ok [OF assms(1)] by blast
  then show ?thesis
    using assms(2) by (simp add: run_simulation_def)
qed

lemma run_simulation_empty_view:
  assumes "resolution config = 0" "fps config \<noteq> 0" "live_view config"
  shows "run_simulation noise config = Inl ValueError"
proof -
  obtain base where base: "create_initial_dye noise (resolution config) = Inr base"
      "is_arr3 (nat (resolution config)) (nat (resolution config)) 3 base"
    using create_initial_dye_ok [of "resolution config" noise] assms(1) by auto
  have "imshow (to_frame base) = Inl ValueError"
    using base(2) assms(1) by (intro imshow_empty [of "nat (resolution config)" 3]) simp
  then show ?thesis
    using assms(2,3) by (simp add: run_simulation_def base(1))
qed

lemma run_simulation_no_steps:
  assumes "0 \<le> resolution config" "steps config \<le> 0" "fps config \<noteq> 0"
    and "0 < resolution config \<or> \<not> live_view config"
  shows "run_simulation noise config = Inr []"
proof -
  obtain base where base: "create_initial_dye noise (resolution config) = Inr base"
      "is_arr3 (nat (resolution config)) (nat (resolution config)) 3 base"
    using create_initial_dye_ok [OF assms(1)] by blast
  have "(if live_view config then imshow (to_frame base) else Inr ()) = Inr ()"
    using assms(4) imshow_ok [OF base(2)] by auto
  then show ?thesis
    using assms(2,3) by (simp add: run_simulation_def base(1))
qed

lemma run_simulation_negative:
  assumes "resolution config < 0"
  shows "run_simulation noise config = Inl ValueError"
  using assms by (simp add: run_simulation_def create_initial_dye_neg)

text \<open>
  From \<open>resolution = N = 7\<close> on the blurred velocity has the shape of the grid, and the run
  goes through: with \<open>steps = S > 0\<close> and \<open>fps \<noteq> 0\<close>, \<open>run_simulation\<close> returns exactly \<open>S\<close>
  frames; frame \<open>k\<close> is the 8-bit image of the dye buffer after \<open>k + 1\<close> passes of the loop
  (generation order), it has shape \<open>N \<times> N \<times> 3\<close>, and every channel value lies in
  \<open>[0, 255]\<close>.
\<close>

theorem run_simulation_frames:
  assumes n: "7 \<le> resolution config" and s: "0 < steps config" and f: "fps config \<noteq> 0"
  shows "\<exists>base frames.
           create_initial_dye noise (resolution config) = Inr base
         \<and> run_simulation noise config = Inr frames
         \<and> length frames = nat (steps config)
         \<and> (\<forall>k < nat (steps config).
               is_arr3 (nat (resolution config)) (nat (resolution config)) 3 (frames ! k)
             \<and> list_all (list_all (list_all (\<lambda>v. unat v \<le> 255))) (frames ! k)
             \<and> (\<exists>dye fr. sim_loop config base [0..<Suc k] base [] = Inr (dye, fr)
                          \<and> frames ! k = to_frame dye))"
proof -
  let ?m = "nat (resolution config)"
  let ?S = "nat (steps config)"
  have n0: "0 \<le> resolution config" using n by simp
  have s0: "\<And>xs. xs = [] \<or> steps config \<noteq> 0" using s by simp
  obtain base where base: "create_initial_dye noise (resolution config) = Inr base"
      "is_arr3 ?m ?m 3 base" "all_between 0 255 base"
    using create_initial_dye_ok [OF n0] by blast
  note ok = sim_loop_ok [OF n s0 base(2,3)]
  obtain d frames where run: "sim_loop config base [0..<?S] base [] = Inr (d, frames)"
    using ok [OF base(2,3), of "[0..<?S]" "[]"] by blast
  have len: "length frames = ?S"
    using sim_loop_frames [OF run] by auto
  have per: "is_arr3 ?m ?m 3 (frames ! k)
             \<and> list_all (list_all (list_all (\<lambda>v. unat v \<le> 255))) (frames ! k)
             \<and> (\<exists>dye fr. sim_loop config base [0..<Suc k] base [] = Inr (dye, fr)
                          \<and> frames ! k = to_frame dye)" if k: "k < ?S" for k
  proof -
    obtain d0 f0 where p0: "sim_loop config base [0..<k] base [] = Inr (d0, f0)"
        "is_arr3 ?m ?m 3 d0" "all_between 0 255 d0"
      using ok [OF base(2,3), of "[0..<k]" "[]"] by blast
    have l0: "length f0 = k" using sim_loop_frames [OF p0(1)] by auto
    obtain d1 where d1: "sim_step config base k d0 = Inr d1" "is_arr3 ?m ?m 3 d1"
      using sim_step_ok [OF n _ p0(2) base(2) p0(3) base(3), of k] s by auto
    have p1: "sim_loop config base [0..<Suc k] base [] = Inr (d1, f0 @ [to_frame d1])"
      using sim_loop_snoc [of config base "[0..<k]" k base "[]"] p0(1) d1(1) by simp
    have split: "[0..<?S] = [0..<Suc k] @ [Suc k..<?S]"
      using k by (metis Suc_leI le0 upt_add_eq_append le_add_diff_inverse)
    have "sim_loop config base [Suc k..<?S] d1 (f0 @ [to_frame d1]) = Inr (d, frames)"
      using run unfolding split sim_loop_append p1 by simp
    then obtain more where "frames = (f0 @ [to_frame d1]) @ more"
      using sim_loop_frames by blast
    then have "frames ! k = to_frame d1"
      using l0 by (simp add: nth_append)
    then show ?thesis
      using p1 is_arr3_to_frame [OF d1(2)] frame_values by auto
  qed
  have "imshow (to_frame base) = Inr ()"
    using n by (intro imshow_ok [OF base(2)]) simp_all
  then have "run_simulation noise config = Inr frames"
    using f by (simp add: run_simulation_def base(1) run)
  with base(1) len per show ?thesis by blast
qed

theorem run_simulation_frames_witness:
  "7 \<le> resolution (default_config\<lparr>resolution := 8, steps := 3\<rparr>)
   \<and> 0 < steps (default_config\<lparr>resolution := 8, steps := 3\<rparr>)
   \<and> fps (default_config\<lparr>resolution := 8, steps := 3\<rparr>) \<noteq> 0
   \<and> (\<exists>frames. run_simulation zero_noise (default_config\<lparr>resolution := 8, steps := 3\<rparr>) = Inr frames
          \<and> length frames = 3 \<and> is_arr3 8 8 3 (frames ! 2))"
  using run_simulation_frames [of "default_config\<lparr>resolution := 8, steps := 3\<rparr>" zero_noise]
  by (simp add: default_config_def) force

text \<open>
  Claim C1 promises \<open>S\<close> frames for every \<open>resolution = N > 0\<close> and \<open>steps = S > 0\<close>. The code
  returns none for \<open>N < 7\<close>: the blur of the velocity field uses a kernel of 7 weights, and
  \<open>np.convolve\<close> returns as many values as the longer of its operands, so with
  \<open>resolution = 6\<close> the blurred velocity has shape \<open>7 \<times> 7 \<times> 2\<close> and cannot be combined with the
  \<open>6 \<times> 6\<close> index grid in \<open>advect\<close>; the first pass of the loop raises ValueError. With
  \<open>resolution = 1\<close> the gradient has too few samples, and with \<open>fps = 0\<close> the pause time
  divides by zero.
\<close>

theorem run_simulation_small_resolution_fails:
  "run_simulation zero_noise (default_config\<lparr>resolution := 6, steps := 1\<rparr>) = Inl ValueError
   \<and> run_simulation zero_noise (default_config\<lparr>resolution := 1, steps := 1\<rparr>) = Inl ValueError
   \<and> run_simulation zero_noise (default_config\<lparr>fps := 0\<rparr>) = Inl ZeroDivisionError"
proof -
  have a: "run_simulation zero_noise (default_config\<lparr>resolution := 6, steps := 1\<rparr>) = Inl ValueError"
    by (rule run_simulation_small) (simp_all add: default_config_def)
  have b: "run_simulation zero_noise (default_config\<lparr>resolution := 1, steps := 1\<rparr>) = Inl ValueError"
    by (rule run_simulation_small) (simp_all add: default_config_def)
  have c: "run_simulation zero_noise (default_config\<lparr>fps := 0\<rparr>) = Inl ZeroDivisionError"
    by (rule run_simulation_fps0) (simp_all add: default_config_def)
  show ?thesis using a b c by simp
qed

text \<open>
  Claim C2, as the code has it. There is no validation of the configuration. For every
  configuration whose resolution or steps is non-positive, \<open>run_simulation\<close> yields no
  frame. A negative resolution raises ValueError while the initial dye is built;
  otherwise \<open>fps = 0\<close> raises ZeroDivisionError before the loop. With \<open>fps \<noteq> 0\<close>:
  \<open>resolution = 0\<close> raises ValueError, in \<open>imshow\<close> when the live view is on and in the first
  pass of the loop when it is off and \<open>steps > 0\<close>; and \<open>steps \<le> 0\<close> returns the empty list
  without raising, when the resolution is positive or the live view is off.
\<close>

theorem run_simulation_nonpositive:
  assumes "resolution config \<le> 0 \<or> steps config \<le> 0"
  shows "(\<forall>frames. run_simulation noise config = Inr frames \<longrightarrow> frames = [])
       \<and> (resolution config < 0 \<longrightarrow>
            create_initial_dye noise (resolution config) = Inl ValueError
          \<and> run_simulation noise config = Inl ValueError)
       \<and> (0 \<le> resolution config \<and> fps config = 0 \<longrightarrow>
            run_simulation noise config = Inl ZeroDivisionError)
       \<and> (resolution config = 0 \<and> fps config \<noteq> 0 \<and> (live_view config \<or> 0 < steps config) \<longrightarrow>
            run_simulation noise config = Inl ValueError)
       \<and> (0 \<le> resolution config \<and> fps config \<noteq> 0 \<and> steps config \<le> 0
            \<and> (0 < resolution config \<or> \<not> live_view config) \<longrightarrow>
            run_simulation noise config = Inr [])"
proof -
  have 1: "resolution config < 0 \<Longrightarrow> run_simulation noise config = Inl ValueError"
    by (rule run_simulation_negative)
  have 2: "0 \<le> resolution config \<Longrightarrow> fps config = 0 \<Longrightarrow>
           run_simulation noise config = Inl ZeroDivisionError"
    by (rule run_simulation_fps0)
  have 3: "0 \<le> resolution config \<Longrightarrow> fps config \<noteq> 0 \<Longrightarrow> steps config \<le> 0 \<Longrightarrow>
           0 < resolution config \<or> \<not> live_view config \<Longrightarrow>
           run_simulation noise config = Inr []"
    by (rule run_simulation_no_steps)
  have 4: "resolution config = 0 \<Longrightarrow> fps config \<noteq> 0 \<Longrightarrow> 0 < steps config \<Longrightarrow>
           run_simulation noise config = Inl ValueError"
    by (rule run_simulation_small) simp_all
  have 5: "resolution config = 0 \<Longrightarrow> fps config \<noteq> 0 \<Longrightarrow> live_view config \<Longrightarrow>
           run_simulation noise config = Inl ValueError"
    by (rule run_simulation_empty_view)
  have 6: "run_simulation noise config = Inr []
          \<or> run_simulation noise config = Inl ValueError
          \<or> run_simulation noise config = Inl ZeroDivisionError"
  proof (cases "resolution config < 0")
    case True
    then show ?thesis using 1 by simp
  next
    case n: False
    show ?thesis
    proof (cases "fps config = 0")
      case True
      then show ?thesis using n 2 by simp
    next
      case f: False
      show ?thesis
      proof (cases "resolution config = 0")
        case z: True
        show ?thesis
        proof (cases "live_view config \<or> 0 < steps config")
          case True
          then show ?thesis using z f 4 5 by blast
        next
          case False
          then show ?thesis using z f 3 by simp
        qed
      next
        case False
        then have "0 < resolution config" "steps config \<le> 0" using n assms by auto
        then show ?thesis using f 3 by simp
      qed
    qed
  qed
  have 7: "\<forall>frames. run_simulation noise config = Inr frames \<longrightarrow> frames = []"
    using 6 by auto
  show ?thesis
    using 1 2 3 4 5 7 by (simp add: create_initial_dye_neg) blast
qed

theorem run_simulation_nonpositive_witness:
  "(resolution (default_config\<lparr>resolution := 0\<rparr>) \<le> 0
      \<or> steps (default_config\<lparr>resolution := 0\<rparr>) \<le> 0)
   \<and> live_view (default_config\<lparr>resolution := 0\<rparr>)
   \<and> run_simulation zero_noise (default_config\<lparr>resolution := 0\<rparr>) = Inl ValueError"
  using run_simulation_nonpositive [of "default_config\<lparr>resolution := 0\<rparr>" zero_noise]
  by (simp add: default_config_def)

text \<open>
  Claim C2 as stated fails: with \<open>steps = 0\<close> (and \<open>resolution = 8\<close>) the run does not
  raise; it returns the empty list of frames.
\<close>

theorem run_simulation_zero_steps_returns:
  "steps (default_config\<lparr>resolution := 8, steps := 0\<rparr>) \<le> 0
   \<and> run_simulation zero_noise (default_config\<lparr>resolution := 8, steps := 0\<rparr>) = Inr []"
  using run_simulation_no_steps [of "default_config\<lparr>resolution := 8, steps := 0\<rparr>" zero_noise]
  by (simp add: default_config_def)

text \<open>
  Claim C10. For every configuration with \<open>resolution \<ge> 0\<close> the initial dye exists and
  lies in \<open>[0, 255]\<close>. Whenever \<open>k \<le> steps\<close> passes of the loop have completed, all values
  of the dye buffer lie in \<open>[0, 255]\<close>, and clamping the buffer to \<open>[0, 255]\<close>, as the frame
  emission does, changes nothing. For \<open>resolution \<ge> 7\<close> every such number of passes does
  complete (below that no pass does).
\<close>

theorem dye_stays_in_range:
  assumes n: "0 \<le> resolution config"
  shows "\<exists>base. create_initial_dye noise (resolution config) = Inr base
          \<and> all_between 0 255 base
          \<and> (\<forall>k \<le> nat (steps config). \<forall>dye fr.
                 sim_loop config base [0..<k] base [] = Inr (dye, fr) \<longrightarrow>
                 all_between 0 255 dye \<and> map (map (map (\<lambda>v. np_clip v 0 255))) dye = dye)
          \<and> (7 \<le> resolution config \<longrightarrow>
               (\<forall>k \<le> nat (steps config). \<exists>dye fr.
                  sim_loop config base [0..<k] base [] = Inr (dye, fr)))"
proof -
  let ?m = "nat (resolution config)"
  obtain base where base: "create_initial_dye noise (resolution config) = Inr base"
      "is_arr3 ?m ?m 3 base" "all_between 0 255 base"
    using create_initial_dye_ok [OF n] by blast
  have ok: "\<exists>dye fr. sim_loop config base [0..<k] base [] = Inr (dye, fr) \<and> all_between 0 255 dye"
    if k: "k \<le> nat (steps config)" and big: "7 \<le> resolution config" for k
  proof -
    have "[0..<k] = [] \<or> steps config \<noteq> 0" using k by auto
    from sim_loop_ok [OF big this base(2,3) base(2,3), of "[]"] show ?thesis by blast
  qed
  have inv: "all_between 0 255 dye \<and> map (map (map (\<lambda>v. np_clip v 0 255))) dye = dye"
    if k: "k \<le> nat (steps config)" and r: "sim_loop config base [0..<k] base [] = Inr (dye, fr)"
    for k dye fr
  proof -
    have "all_between 0 255 dye"
    proof (cases "k = 0")
      case True
      then show ?thesis using r base(3) by simp
    next
      case False
      then have s0: "steps config \<noteq> 0" and x: "[0..<k] \<noteq> []" using k by auto
      show ?thesis
      proof (cases "7 \<le> resolution config")
        case True
        then show ?thesis using ok [OF k True] r by auto
      next
        case small: False
        then have "sim_loop config base [0..<k] base [] = Inl ValueError"
          by (intro sim_loop_small [OF _ s0 x base(2)]) simp
        then show ?thesis using r by simp
      qed
    qed
    then show ?thesis using clip_id_between by blast
  qed
  show ?thesis
    using base(1,3) inv ok by blast
qed

theorem dye_stays_in_range_witness:
  "0 \<le> resolution (default_config\<lparr>resolution := 8, steps := 3\<rparr>)
   \<and> 7 \<le> resolution (default_config\<lparr>resolution := 8, steps := 3\<rparr>)
   \<and> (\<exists>base dye fr. create_initial_dye zero_noise 8 = Inr base
        \<and> sim_loop (default_config\<lparr>resolution := 8, steps := 3\<rparr>) base [0..<3] base [] = Inr (dye, fr)
        \<and> all_between 0 255 dye)"
proof -
  let ?c = "default_config\<lparr>resolution := 8, steps := 3\<rparr>"
  have c: "0 \<le> resolution ?c" "7 \<le> resolution ?c" "nat (steps ?c) = 3" "resolution ?c = 8"
    by (simp_all add: default_config_def)
  from dye_stays_in_range [OF c(1), of zero_noise]
  obtain base where base: "create_initial_dye zero_noise (resolution ?c) = Inr base"
      "\<forall>k \<le> nat (steps ?c). \<forall>dye fr.
         sim_loop ?c base [0..<k] base [] = Inr (dye, fr) \<longrightarrow>
         all_between 0 255 dye \<and> map (map (map (\<lambda>v. np_clip v 0 255))) dye = dye"
      "7 \<le> resolution ?c \<longrightarrow>
         (\<forall>k \<le> nat (steps ?c). \<exists>dye fr. sim_loop ?c base [0..<k] base [] = Inr (dye, fr))"
    by blast
  obtain dye fr where r: "sim_loop ?c base [0..<3] base [] = Inr (dye, fr)"
    using base(3) c(2,3) by auto
  have "all_between 0 255 dye"
    using base(2) r c(3) by auto
  then show ?thesis
    using c(1,2) base(1) r unfolding c(4) by blast
qed

section \<open>Dissipation with the velocity held at zero\<close>

lemma zget_zero: "(\<forall>x\<in>set a. x = 0) \<Longrightarrow> zget a i = 0"
proof (cases "0 \<le> i \<and> i < int (length a)")
  case True
  assume z: "\<forall>x\<in>set a. x = 0"
  from True have "nat i < length a" by (simp add: nat_less_iff)
  then have "a ! nat i \<in> set a" by (rule nth_mem)
  with z True show ?thesis by (simp add: zget_def)
next
  case False
  then show ?thesis by (auto simp: zget_def)
qed

lemma convolve_out_zero:
  assumes z: "\<forall>x\<in>set a. x = 0" and i: "i < length (convolve_out a v)"
  shows "convolve_out a v ! i = 0"
proof (cases "length a < length v")
  case True
  then have i': "i < length v" using i by (simp add: convolve_out_def)
  have "\<And>j. j < length (rev a) \<Longrightarrow> rev a ! j = 0"
    using z by (metis nth_mem set_rev)
  then have "(\<Sum>j<length (rev a). zget v (int i + int j - int (length (rev a) div 2)) * rev a ! j) = 0"
    by (intro sum.neutral) simp
  then show ?thesis
    using True by (simp only: convolve_out_def if_True nth_correlate_same [OF i'])
next
  case False
  then have i': "i < length a" using i by (simp add: convolve_out_def)
  show ?thesis
    using False by (simp add: convolve_out_def nth_correlate_same [OF i'] zget_zero [OF z])
qed

lemma all_zero_tab3: "(\<And>i j k. i < h \<Longrightarrow> j < w \<Longrightarrow> k < c \<Longrightarrow> g i j k = 0) \<Longrightarrow> all_zero (tab3 h w c g)"
  by (simp add: all_zero_def tab3_def list_all_iff)

lemma gaussian_blur_zero:
  assumes pos: "0 < h" "0 < w" "0 < c" and s: "0 < sigma"
  shows "\<exists>g. gaussian_blur (tab3 h w c (\<lambda>i j k. 0)) sigma = Inr g
           \<and> is_arr3 (max h (length (gaussian_weights sigma))) (max w (length (gaussian_weights sigma))) c g
           \<and> all_zero g"
proof -
  let ?W = "gaussian_weights sigma"
  let ?f = "tab3 h w c (\<lambda>i j k. 0 :: real)"
  let ?H = "max h (length ?W)"
  let ?B = "tab3 ?H w c (\<lambda>i j k. convolve_out (line0 ?f j k) ?W ! i)"
  have z0: "\<And>j k. j < w \<Longrightarrow> k < c \<Longrightarrow> \<forall>x\<in>set (line0 ?f j k). x = 0"
    by (auto simp: line0_def tab3_def)
  have B: "\<And>i j k. i < ?H \<Longrightarrow> j < w \<Longrightarrow> k < c \<Longrightarrow> ?B ! i ! j ! k = 0"
  proof -
    fix i j k assume a: "i < ?H" "j < w" "k < c"
    have "i < length (convolve_out (line0 ?f j k) ?W)"
      using a(1) by (simp add: length_convolve_out length_line0)
    then have "convolve_out (line0 ?f j k) ?W ! i = 0"
      by (rule convolve_out_zero [OF z0 [OF a(2,3)]])
    then show "?B ! i ! j ! k = 0" using a by simp
  qed
  have z1: "\<And>i k. i < ?H \<Longrightarrow> k < c \<Longrightarrow> \<forall>x\<in>set (line1 ?B i k). x = 0"
  proof -
    fix i k assume a: "i < ?H" "k < c"
    have "length (?B ! i) = w" using a by simp
    then show "\<forall>x\<in>set (line1 ?B i k). x = 0"
      using B [OF a(1) _ a(2)] a
      unfolding line1_def by (auto simp: in_set_conv_nth simp del: nth_tab3_row)
  qed
  have "all_zero (tab3 ?H (max w (length ?W)) c (\<lambda>i j k. convolve_out (line1 ?B i k) ?W ! j))"
  proof (rule all_zero_tab3)
    fix i j k assume a: "i < ?H" "j < max w (length ?W)" "k < c"
    have "j < length (convolve_out (line1 ?B i k) ?W)"
      using a by (simp add: length_convolve_out length_line1 [OF is_arr3_tab3])
    then show "convolve_out (line1 ?B i k) ?W ! j = 0"
      by (rule convolve_out_zero [OF z1 [OF a(1,3)]])
  qed
  then show ?thesis
    using gaussian_blur_cells [OF is_arr3_tab3 pos s, of "\<lambda>i j k. 0"] by auto
qed

lemma velocity_field_zero_strength:
  assumes n: "2 \<le> n"
  shows "\<exists>v. velocity_field n t 0 = Inr v \<and> is_arr3 (max (nat n) 7) (max (nat n) 7) 2 v \<and> all_zero v"
proof -
  obtain dy dx where "velocity_field n t 0
      = gaussian_blur (tab3 (nat n) (nat n) 2 (\<lambda>i j k.
            if k = 0 then dy ! i ! j * 0 * real_of_int n else - (dx ! i ! j) * 0 * real_of_int n)) 1"
    using velocity_field_unfold [OF n, of t 0] by blast
  then have "velocity_field n t 0 = gaussian_blur (tab3 (nat n) (nat n) 2 (\<lambda>i j k. 0)) 1"
    by (simp cong: if_cong)
  moreover have "0 < nat n" using n by simp
  moreover have "length (gaussian_weights 1) = 7"
    by (simp add: length_gaussian_weights gaussian_radius_1)
  ultimately show ?thesis
    using gaussian_blur_zero [of "nat n" "nat n" 2 1] by simp
qed

lemma zero_velocity_update:
  assumes d: "is_arr3 h w c dye" and b: "is_arr3 h w c base" and v: "is_arr3 h w 2 vel"
    and pos: "0 < h" "0 < w" and z: "all_zero vel"
  shows "ebind (advect dye vel delta_t) (\<lambda>d. dissipate d base)
         = Inr (tab3 h w c (\<lambda>i j k. 0.995 * dye ! i ! j ! k + 0.005 * base ! i ! j ! k))"
  by (simp add: advect_zero_field [OF d v pos z] dissipate_cells [OF d b pos])

lemma sim_step_zero_strength:
  assumes n: "7 \<le> resolution config" and z: "strength config = 0" and s: "steps config \<noteq> 0"
    and d: "is_arr3 (nat (resolution config)) (nat (resolution config)) 3 dye"
    and b: "is_arr3 (nat (resolution config)) (nat (resolution config)) 3 base"
  shows "sim_step config base step dye
         = Inr (tab3 (nat (resolution config)) (nat (resolution config)) 3
                 (\<lambda>i j k. 0.995 * dye ! i ! j ! k + 0.005 * base ! i ! j ! k))"
proof -
  let ?m = "nat (resolution config)"
  let ?t = "real step / real_of_int (steps config) * 6"
  have m: "0 < ?m" "max ?m 7 = ?m" using n by simp_all
  obtain vel where vel: "velocity_field (resolution config) ?t 0 = Inr vel"
      "is_arr3 ?m ?m 2 vel" "all_zero vel"
    using velocity_field_zero_strength [of "resolution config" ?t] n m(2) by auto
  show ?thesis
    unfolding sim_step_def Let_def z vel(1) ebind_Inr
      zero_velocity_update [OF d b vel(2) m(1) m(1) vel(3)]
    using s by simp
qed

lemma sim_loop_zero_strength:
  assumes n: "7 \<le> resolution config" and z: "strength config = 0" and s: "steps config \<noteq> 0"
    and b: "is_arr3 (nat (resolution config)) (nat (resolution config)) 3 base"
    and d: "is_arr3 (nat (resolution config)) (nat (resolution config)) 3 dye"
  shows "\<exists>r fr'. sim_loop config base xs dye fr = Inr (r, fr')
           \<and> is_arr3 (nat (resolution config)) (nat (resolution config)) 3 r
           \<and> (\<forall>i < nat (resolution config). \<forall>j < nat (resolution config). \<forall>k < 3.
                 r ! i ! j ! k - base ! i ! j ! k
                 = 0.995 ^ length xs * (dye ! i ! j ! k - base ! i ! j ! k))"
  using d
proof (induction xs arbitrary: dye fr)
  case Nil
  then show ?case by simp
next
  case (Cons st xs)
  let ?m = "nat (resolution config)"
  let ?d1 = "tab3 ?m ?m 3 (\<lambda>i j k. 0.995 * dye ! i ! j ! k + 0.005 * base ! i ! j ! k)"
  have st: "sim_step config base st dye = Inr ?d1"
    by (rule sim_step_zero_strength [OF n z s Cons.prems b])
  obtain r fr' where r: "sim_loop config base xs ?d1 (fr @ [to_frame ?d1]) = Inr (r, fr')"
      "is_arr3 ?m ?m 3 r"
      "\<forall>i < ?m. \<forall>j < ?m. \<forall>k < 3.
         r ! i ! j ! k - base ! i ! j ! k = 0.995 ^ length xs * (?d1 ! i ! j ! k - base ! i ! j ! k)"
    using Cons.IH [OF is_arr3_tab3] by blast
  have "\<forall>i < ?m. \<forall>j < ?m. \<forall>k < 3.
         r ! i ! j ! k - base ! i ! j ! k
         = 0.995 ^ length (st # xs) * (dye ! i ! j ! k - base ! i ! j ! k)"
  proof (intro allI impI)
    fix i j k assume a: "i < ?m" "j < ?m" "k < (3::nat)"
    have "?d1 ! i ! j ! k - base ! i ! j ! k = 0.995 * (dye ! i ! j ! k - base ! i ! j ! k)"
      using a by (simp add: algebra_simps)
    then show "r ! i ! j ! k - base ! i ! j ! k
         = 0.995 ^ length (st # xs) * (dye ! i ! j ! k - base ! i ! j ! k)"
      using r(3) a by simp
  qed
  with r(1,2) st show ?case by simp
qed

lemma cells_bounded:
  fixes g :: "nat \<Rightarrow> nat \<Rightarrow> nat \<Rightarrow> real"
  shows "\<exists>M. 0 \<le> M \<and> (\<forall>i<h. \<forall>j<w. \<forall>k<c. \<bar>g i j k\<bar> \<le> M)"
proof -
  let ?M = "\<Sum>i<h. \<Sum>j<w. \<Sum>k<c. \<bar>g i j k\<bar>"
  have "\<bar>g i j k\<bar> \<le> ?M" if a: "i < h" "j < w" "k < c" for i j k
  proof -
    have "\<bar>g i j k\<bar> \<le> (\<Sum>k<c. \<bar>g i j k\<bar>)"
      using a(3) by (intro member_le_sum) simp_all
    also have "\<dots> \<le> (\<Sum>j<w. \<Sum>k<c. \<bar>g i j k\<bar>)"
      using a(2) by (intro member_le_sum [where f = "\<lambda>j. \<Sum>k<c. \<bar>g i j k\<bar>"]) (simp_all add: sum_nonneg)
    also have "\<dots> \<le> ?M"
      using a(1) by (intro member_le_sum [where f = "\<lambda>i. \<Sum>j<w. \<Sum>k<c. \<bar>g i j k\<bar>"]) (simp_all add: sum_nonneg)
    finally show ?thesis .
  qed
  moreover have "0 \<le> ?M" by (simp add: sum_nonneg)
  ultimately show ?thesis by blast
qed

lemma geometric_small:
  fixes M e :: real
  assumes "0 \<le> M" "0 < e"
  shows "\<exists>n0. \<forall>n\<ge>n0. (995 / 1000) ^ n * M < e"
proof -
  have "0 < e / (M + 1)" using assms by simp
  then obtain n0 where n0: "(995 / 1000 :: real) ^ n0 < e / (M + 1)"
    using real_arch_pow_inv [of "e / (M + 1)" "995 / 1000"] by auto
  have "(995 / 1000) ^ n * M < e" if "n0 \<le> n" for n
  proof -
    have "(995 / 1000 :: real) ^ n \<le> (995 / 1000) ^ n0"
      using that by (intro power_decreasing) simp_all
    then have "(995 / 1000 :: real) ^ n < e / (M + 1)" using n0 by linarith
    then have "(995 / 1000) ^ n * (M + 1) < e"
      using assms by (simp add: pos_less_divide_eq)
    moreover have "(995 / 1000) ^ n * M \<le> (995 / 1000 :: real) ^ n * (M + 1)"
      by (intro mult_left_mono) simp_all
    ultimately show ?thesis by linarith
  qed
  then show ?thesis by blast
qed



section \<open>The sampler in float64\<close>

lemma blend_f64_steps:
  assumes "f64_round (1 - f) = g" "f64_round (a * g) = p" "f64_round (b * f) = q"
    and "f64_round (p + q) = r"
  shows "blend_f64 f a b = r"
  unfolding blend_f64_def by (simp only: assms)

lemma bilinear_sample_f64_one:
  assumes "bilinear_at_f64 field x y = Inr v"
  shows "bilinear_sample_f64 field [[x]] [[y]] = Inr [[v]]"
proof -
  have a: "is_arr2 1 1 [[x]]" "is_arr2 1 1 [[y]]"
    by (simp_all add: is_arr2_def)
  have "tab2 1 1 (\<lambda>i j. bilinear_at_f64 field ([[x]] ! i ! j) ([[y]] ! i ! j)) = map (map Inr) [[v]]"
    using assms by (simp add: tab2_def)
  then show ?thesis
    unfolding bilinear_sample_f64_def
    by (simp only: broadcast2_same [OF a zero_less_one] sequence_err_rows sum.case)
qed

lemma np_clip_single [simp]: "np_clip (i::int) 0 0 = 0"
  by (simp add: np_clip_def)

lemma bilinear_at_f64_cell:
  "bilinear_at_f64 [[[v]]] x y =
     Inr [blend_f64 (f64_round y) (blend_f64 (f64_round x) v v) (blend_f64 (f64_round x) v v)]"
proof -
  have s: "nrows [[[v]]] = 1" "ncols [[[v]]] = 1"
    by (simp_all add: nrows_def ncols_def)
  show ?thesis
    unfolding bilinear_at_f64_def s
    by (simp add: Let_def np_index2_def np_index_def)
qed

lemma blend_f64_tenth_outside:
  "blend_f64 (- 5) (3602879701896397 / 36028797018963968) (3602879701896397 / 36028797018963968)
   = 900719925474100 / 9007199254740992"
proof (rule blend_f64_steps)
  show "f64_round (1 - (- 5)) = 6"
    by (subst f64_round_eval [of 2]) (simp_all add: round_half_even_def Let_def power_int_minus)
  show "f64_round (3602879701896397 / 36028797018963968 * 6) = 5404319552844596 / 9007199254740992"
    by (subst f64_round_eval [of "- 1"]) (simp_all add: round_half_even_def Let_def power_int_minus)
  show "f64_round (3602879701896397 / 36028797018963968 * (- 5)) = - (1 / 2)"
    by (subst f64_round_eval [of "- 1"]) (simp_all add: round_half_even_def Let_def power_int_minus)
  show "f64_round (5404319552844596 / 9007199254740992 + - (1 / 2)) = 900719925474100 / 9007199254740992"
    by (subst f64_round_eval [of "- 4"]) (simp_all add: round_half_even_def Let_def power_int_minus)
qed

lemma blend_f64_drift_outside:
  "blend_f64 (- 5) (900719925474100 / 9007199254740992) (900719925474100 / 9007199254740992)
   = 900719925474100 / 9007199254740992"
proof (rule blend_f64_steps)
  show "f64_round (1 - (- 5)) = 6"
    by (subst f64_round_eval [of 2]) (simp_all add: round_half_even_def Let_def power_int_minus)
  show "f64_round (900719925474100 / 9007199254740992 * 6) = 5404319552844600 / 9007199254740992"
    by (subst f64_round_eval [of "- 1"]) (simp_all add: round_half_even_def Let_def power_int_minus)
  show "f64_round (900719925474100 / 9007199254740992 * (- 5)) = - (4503599627370500 / 9007199254740992)"
    by (subst f64_round_eval [of "- 1"]) (simp_all add: round_half_even_def Let_def power_int_minus)
  show "f64_round (5404319552844600 / 9007199254740992 + - (4503599627370500 / 9007199254740992))
        = 900719925474100 / 9007199254740992"
    by (subst f64_round_eval [of "- 4"]) (simp_all add: round_half_even_def Let_def power_int_minus)
qed

lemma blend_f64_tenth_inside:
  "blend_f64 0 (3602879701896397 / 36028797018963968) (3602879701896397 / 36028797018963968)
   = 3602879701896397 / 36028797018963968"
proof (rule blend_f64_steps)
  show "f64_round (1 - 0) = 1" by simp
  show "f64_round (3602879701896397 / 36028797018963968 * 1) = 3602879701896397 / 36028797018963968"
    by (subst f64_round_eval [of "- 4"]) (simp_all add: round_half_even_def Let_def power_int_minus)
  show "f64_round (3602879701896397 / 36028797018963968 * 0) = 0" by simp
  show "f64_round (3602879701896397 / 36028797018963968 + 0) = 3602879701896397 / 36028797018963968"
    by (subst f64_round_eval [of "- 4"]) (simp_all add: round_half_even_def Let_def power_int_minus)
qed

lemma blend_f64_tenth_far:
  "blend_f64 100000000000000000 (3602879701896397 / 36028797018963968)
     (3602879701896397 / 36028797018963968) = 0"
proof (rule blend_f64_steps)
  show "f64_round (1 - 100000000000000000) = - 100000000000000000"
    by (subst f64_round_eval [of 56]) (simp_all add: round_half_even_def Let_def power_int_minus)
  show "f64_round (3602879701896397 / 36028797018963968 * (- 100000000000000000)) = - 10000000000000000"
    by (subst f64_round_eval [of 53]) (simp_all add: round_half_even_def Let_def power_int_minus)
  show "f64_round (3602879701896397 / 36028797018963968 * 100000000000000000) = 10000000000000000"
    by (subst f64_round_eval [of 53]) (simp_all add: round_half_even_def Let_def power_int_minus)
  show "f64_round (- 10000000000000000 + 10000000000000000) = 0" by simp
qed

lemma blend_f64_zero_inside: "blend_f64 0 0 0 = 0"
  by (simp add: blend_f64_def)

lemma f64_round_small_ints:
  "f64_round (- 5) = - 5" "f64_round 100000000000000000 = 100000000000000000"
  by (subst f64_round_eval [of 2], simp_all add: round_half_even_def Let_def power_int_minus)
     (subst f64_round_eval [of 56], simp_all add: round_half_even_def Let_def power_int_minus)

text \<open>
  Claim C6 says that a sample outside the field is the sample at the nearest edge cell.
  The code clamps both corners of the blend to the edge cell, but takes the offset
  \<open>fx = x - x0\<close> from the clamped \<open>x0\<close>, so outside the field the weights \<open>1 - fx\<close> and \<open>fx\<close>
  are not in \<open>[0, 1]\<close> and only add up to 1 before rounding. On the \<open>1 \<times> 1 \<times> 1\<close> field
  holding the float64 nearest to \<open>0.1\<close>, the sample at \<open>(-5, -5)\<close> is
  \<open>0.10000000000000009\<close>, not the edge cell that the sample at \<open>(0, 0)\<close> returns, and the
  sample at \<open>(10\<^sup>1\<^sup>7, 0)\<close> is \<open>0\<close>.
\<close>

theorem bilinear_sample_edge_drift:
  "bilinear_sample_f64 [[[3602879701896397 / 36028797018963968]]] [[- 5]] [[- 5]]
     = Inr [[[900719925474100 / 9007199254740992]]]
   \<and> bilinear_sample_f64 [[[3602879701896397 / 36028797018963968]]] [[0]] [[0]]
     = Inr [[[3602879701896397 / 36028797018963968]]]
   \<and> bilinear_sample_f64 [[[3602879701896397 / 36028797018963968]]] [[- 5]] [[- 5]]
     \<noteq> bilinear_sample_f64 [[[3602879701896397 / 36028797018963968]]] [[0]] [[0]]
   \<and> bilinear_sample_f64 [[[3602879701896397 / 36028797018963968]]] [[100000000000000000]] [[0]]
     = Inr [[[0]]]"
proof -
  let ?f = "[[[3602879701896397 / 36028797018963968 :: real]]]"
  have a: "bilinear_at_f64 ?f (- 5) (- 5) = Inr [900719925474100 / 9007199254740992]"
    by (simp only: bilinear_at_f64_cell f64_round_small_ints blend_f64_tenth_outside
        blend_f64_drift_outside)
  have b: "bilinear_at_f64 ?f 0 0 = Inr [3602879701896397 / 36028797018963968]"
    by (simp only: bilinear_at_f64_cell f64_round_0 blend_f64_tenth_inside)
  have c: "bilinear_at_f64 ?f 100000000000000000 0 = Inr [0]"
    by (simp only: bilinear_at_f64_cell f64_round_small_ints f64_round_0 blend_f64_tenth_far
        blend_f64_zero_inside)
  show ?thesis
    unfolding bilinear_sample_f64_one [OF a] bilinear_sample_f64_one [OF b]
      bilinear_sample_f64_one [OF c]
    by simp
qed

end
